theory Spec2Isabelle
  imports Complex_Main "HOL-Library.Sublist"
begin

section \<open>Text normaliser (deep_research/pipeline.py)\<close>

subsection \<open>String primitives of Python\<close>

text \<open>
  \<open>text.find(sub)\<close>: the index of the first occurrence of \<open>sub\<close>. Python returns
  \<open>-1\<close> when there is none; the model returns \<open>None\<close> there, so that \<open>sub in text\<close> is
  \<open>str_find sub text \<noteq> None\<close>.
\<close>

fun str_find :: "string \<Rightarrow> string \<Rightarrow> nat option" where
  "str_find sub [] = (if sub = [] then Some 0 else None)"
| "str_find sub (c # cs) =
     (if prefix sub (c # cs) then Some 0 else map_option Suc (str_find sub cs))"

definition contains :: "string \<Rightarrow> string \<Rightarrow> bool" where
  "contains sub text = (str_find sub text \<noteq> None)"

text \<open>
  \<open>str.isspace\<close> on the code points below 256, and \<open>str.strip()\<close>, which drops the
  white space at both ends.
\<close>

definition is_space :: "char \<Rightarrow> bool" where
  "is_space c = (of_char c \<in> {9, 10, 11, 12, 13, 28, 29, 30, 31, 32, 133, 160 :: nat})"

definition str_strip :: "string \<Rightarrow> string" where
  "str_strip s = rev (dropWhile is_space (rev (dropWhile is_space s)))"

text \<open>The slice \<open>text[a:b]\<close> for indices \<open>0 \<le> a\<close>, \<open>0 \<le> b\<close>: empty when \<open>b \<le> a\<close>.\<close>

definition slice :: "string \<Rightarrow> nat \<Rightarrow> nat \<Rightarrow> string" where
  "slice text a b = take (b - a) (drop a text)"

subsection \<open>\<open>_strip_thinking_tokens\<close>\<close>

definition think_open :: string where
  "think_open = ''<think>''"

definition think_close :: string where
  "think_close = ''</think>''"

text \<open>
  The \<open>while\<close> loop of \<open>_strip_thinking_tokens\<close>, on the pair \<open>(thoughts, text)\<close>. The
  loop runs while both markers occur in \<open>text\<close>; \<open>s\<close> and \<open>e\<close> are the first occurrence of
  each. Nothing in the source bounds the number of iterations, so the loop is a partial
  function: \<open>None\<close> is the loop that never ends.
\<close>

partial_function (option) strip_loop :: "string \<Rightarrow> string \<Rightarrow> (string \<times> string) option" where
  "strip_loop thoughts text =
     (case (str_find think_open text, str_find think_close text) of
        (Some s, Some e) \<Rightarrow>
          strip_loop (thoughts @ str_strip (slice text (s + 7) e) @ ''\<newline>\<newline>'')
                     (take s text @ drop (e + 8) text)
      | _ \<Rightarrow> Some (thoughts, text))"

declare strip_loop.simps [code]

definition strip_thinking_tokens :: "string \<Rightarrow> (string \<times> string) option" where
  "strip_thinking_tokens text =
     (case strip_loop [] text of
        None \<Rightarrow> None
      | Some (thoughts, text') \<Rightarrow> Some (str_strip thoughts, str_strip text'))"

subsection \<open>\<open>_normalize_latex\<close>\<close>

text \<open>
  \<open>_CODE_BLOCK_RE\<close> is \<^verbatim>\<open>(```.*?```|`.*?`)\<close> with \<open>DOTALL\<close>. A match starts at a
  backtick. There the first alternative is tried first: three backticks, the shortest
  run of any characters, three backticks; then the second: a backtick, the shortest run,
  a backtick. \<open>match_code t\<close> is the length of the match at the head of \<open>t\<close>.
\<close>

definition match_code :: "string \<Rightarrow> nat option" where
  "match_code t =
     (let single = (case str_find ''`'' (drop 1 t) of
                      None \<Rightarrow> None
                    | Some q \<Rightarrow> Some (q + 2))
      in if prefix ''```'' t
         then (case str_find ''```'' (drop 3 t) of
                 None \<Rightarrow> single
               | Some q \<Rightarrow> Some (q + 6))
         else if prefix ''`'' t then single else None)"

text \<open>
  \<open>_CODE_BLOCK_RE.split(text)\<close>: the pattern has one capturing group, so the result
  alternates the text between matches (even indices) with the matches (odd indices).
  The leftmost match starts at the first backtick that has a match; a backtick with no
  later backtick has none, and then no later position has one either.
\<close>

function split_code :: "string \<Rightarrow> string list" where
  "split_code t =
     (case str_find ''`'' t of
        None \<Rightarrow> [t]
      | Some p \<Rightarrow>
          (case match_code (drop p t) of
             None \<Rightarrow> [t]
           | Some n \<Rightarrow> take p t # take n (drop p t) # split_code (drop (p + n) t)))"
  by pat_completeness auto

text \<open>
  \<open>re.sub\<close> of a backslash and the bracket \<open>b1\<close>, the shortest run of any characters
  (the group), a backslash and the bracket \<open>b2\<close>, by \<open>d\<close>, the group, \<open>d\<close>. The leftmost
  match starts at the first opening delimiter, when a closing one follows it; the search
  goes on after the match.
\<close>

abbreviation backslash :: char where
  "backslash \<equiv> CHR 0x5C"

function sub_pair :: "char \<Rightarrow> char \<Rightarrow> string \<Rightarrow> string \<Rightarrow> string" where
  "sub_pair b1 b2 d t =
     (case str_find [backslash, b1] t of
        None \<Rightarrow> t
      | Some p \<Rightarrow>
          (case str_find [backslash, b2] (drop (p + 2) t) of
             None \<Rightarrow> t
           | Some q \<Rightarrow>
               take p t @ d @ take q (drop (p + 2) t) @ d
                 @ sub_pair b1 b2 d (drop (p + 2 + q + 2) t)))"
  by pat_completeness auto

text \<open>The loop \<open>for i in range(0, len(parts), 2)\<close>: every other part, from the first.\<close>

fun map_even :: "('a \<Rightarrow> 'a) \<Rightarrow> 'a list \<Rightarrow> 'a list" where
  "map_even f [] = []"
| "map_even f [x] = [f x]"
| "map_even f (x # y # xs) = f x # y # map_even f xs"

definition normalize_segment :: "string \<Rightarrow> string" where
  "normalize_segment seg =
     sub_pair CHR ''('' CHR '')'' ''$'' (sub_pair CHR ''['' CHR '']'' ''$$'' seg)"

definition normalize_latex :: "string \<Rightarrow> string" where
  "normalize_latex text = concat (map_even normalize_segment (split_code text))"

section \<open>Research state (deep_research/states.py)\<close>

text \<open>
  The values Python handles dynamically: what \<open>json.loads\<close> returns, what a notifier
  receives in a payload. A float is a rational here; the code inspects no number beyond
  its truth value. \<open>PDict kvs\<close> is the dict that binds each key to its first value in
  \<open>kvs\<close>.
\<close>

datatype pyval =
    PNone
  | PBool bool
  | PInt int
  | PFloat rat
  | PStr string
  | PList "pyval list"
  | PDict "(string \<times> pyval) list"

fun truthy :: "pyval \<Rightarrow> bool" where
  "truthy PNone = False"
| "truthy (PBool b) = b"
| "truthy (PInt i) = (i \<noteq> 0)"
| "truthy (PFloat r) = (r \<noteq> 0)"
| "truthy (PStr s) = (s \<noteq> [])"
| "truthy (PList xs) = (xs \<noteq> [])"
| "truthy (PDict kvs) = (kvs \<noteq> [])"

text \<open>
  The exceptions of a run. \<open>Failure\<close> is an \<open>Exception\<close> raised by a collaborator (the
  model service, the search service, the notifier); \<open>Interrupt\<close> is one that derives
  from \<open>BaseException\<close> only, which \<open>except Exception\<close> does not catch.
\<close>

datatype exn =
    JSONDecodeError
  | KeyError string
  | TypeError
  | AttributeError
  | IndexError
  | Failure string
  | Interrupt string

fun is_Exception :: "exn \<Rightarrow> bool" where
  "is_Exception (Interrupt m) = False"
| "is_Exception e = True"

text \<open>\<open>v[k]\<close> and \<open>v.get(k, d)\<close> for a string key: only a dict has either.\<close>

fun subscript :: "pyval \<Rightarrow> string \<Rightarrow> exn + pyval" where
  "subscript (PDict kvs) k = (case map_of kvs k of None \<Rightarrow> Inl (KeyError k) | Some v \<Rightarrow> Inr v)"
| "subscript v k = Inl TypeError"

fun py_get :: "pyval \<Rightarrow> string \<Rightarrow> pyval \<Rightarrow> exn + pyval" where
  "py_get (PDict kvs) k d = Inr (case map_of kvs k of None \<Rightarrow> d | Some v \<Rightarrow> v)"
| "py_get v k d = Inl AttributeError"

text \<open>
  \<open>SummaryState\<close>. The fields \<open>search_query\<close>, \<open>rationale\<close> and \<open>knowledge_gap\<close> receive
  whatever the parsed model output holds under the key.
\<close>

record summary_state =
  research_topic :: string
  search_query :: pyval
  rationale :: pyval
  web_research_results :: "string list"
  sources_gathered :: "string list"
  images :: "string list"
  research_loop_count :: int
  running_summary :: string
  knowledge_gap :: pyval
  websocket_id :: "string option"
  thoughts :: string

text \<open>
  The dict a stage returns: the keys it holds, each with its value; \<open>None\<close> is a key
  that is absent.
\<close>

record state_update =
  upd_search_query :: "pyval option"
  upd_rationale :: "pyval option"
  upd_web_research_results :: "string list option"
  upd_sources_gathered :: "string list option"
  upd_images :: "string list option"
  upd_research_loop_count :: "int option"
  upd_running_summary :: "string option"
  upd_knowledge_gap :: "pyval option"

definition no_update :: state_update where
  "no_update =
     \<lparr>upd_search_query = None, upd_rationale = None, upd_web_research_results = None,
      upd_sources_gathered = None, upd_images = None, upd_research_loop_count = None,
      upd_running_summary = None, upd_knowledge_gap = None\<rparr>"

text \<open>
  How the graph merges a returned dict into the state: a field annotated with
  \<open>operator.add\<close> (\<open>web_research_results\<close>, \<open>sources_gathered\<close>, \<open>images\<close>) gets the
  returned list appended, any other field is overwritten, and a field whose key is absent
  is left as it is.
\<close>

definition overwrite :: "'a \<Rightarrow> 'a option \<Rightarrow> 'a" where
  "overwrite old u = (case u of None \<Rightarrow> old | Some v \<Rightarrow> v)"

definition add_reducer :: "'a list \<Rightarrow> 'a list option \<Rightarrow> 'a list" where
  "add_reducer old u = (case u of None \<Rightarrow> old | Some xs \<Rightarrow> old @ xs)"

definition apply_update :: "summary_state \<Rightarrow> state_update \<Rightarrow> summary_state" where
  "apply_update s u =
     s\<lparr>search_query := overwrite (search_query s) (upd_search_query u),
       rationale := overwrite (rationale s) (upd_rationale u),
       web_research_results := add_reducer (web_research_results s) (upd_web_research_results u),
       sources_gathered := add_reducer (sources_gathered s) (upd_sources_gathered u),
       images := add_reducer (images s) (upd_images u),
       research_loop_count := overwrite (research_loop_count s) (upd_research_loop_count u),
       running_summary := overwrite (running_summary s) (upd_running_summary u),
       knowledge_gap := overwrite (knowledge_gap s) (upd_knowledge_gap u)\<rparr>"

text \<open>
  The state \<open>graph.ainvoke({"research_topic": topic, "images": []})\<close> starts from: the
  defaults of the dataclass, with the topic.
\<close>

definition initial_state :: "string \<Rightarrow> summary_state" where
  "initial_state topic =
     \<lparr>research_topic = topic, search_query = PStr [], rationale = PStr [],
      web_research_results = [], sources_gathered = [], images = [],
      research_loop_count = 0, running_summary = [], knowledge_gap = PStr [],
      websocket_id = None, thoughts = []\<rparr>"

section \<open>Collaborators and effects\<close>

text \<open>The five stages in the names \<open>setup_graph\<close> gives them, and the graph's \<open>END\<close>.\<close>

datatype node =
    GenerateQueryNode
  | WebResearchNode
  | SummarizeSourcesNode
  | ReflectOnSummaryNode
  | FinalizeSummaryNode
  | EndNode

type_synonym event = "string \<times> (string \<times> pyval) list"

text \<open>
  What a run does to the outside: how many times it has called the model and the search
  service, the notifier calls it has made, in order, and the nodes it has completed.
\<close>

record world =
  llm_calls :: nat
  search_calls :: nat
  events :: "event list"
  visited :: "node list"

definition initial_world :: world where
  "initial_world = \<lparr>llm_calls = 0, search_calls = 0, events = [], visited = []\<rparr>"

text \<open>
  A coroutine of the pipeline returns a value, raises, or never returns; the first two
  leave a world behind.
\<close>

datatype 'a outcome = Return 'a world | Raise exn world | Hang

type_synonym 'a io = "world \<Rightarrow> 'a outcome"

definition return_io :: "'a \<Rightarrow> 'a io" where
  "return_io a w = Return a w"

definition bind_io :: "'a io \<Rightarrow> ('a \<Rightarrow> 'b io) \<Rightarrow> 'b io" where
  "bind_io m f w =
     (case m w of Return a w' \<Rightarrow> f a w' | Raise e w' \<Rightarrow> Raise e w' | Hang \<Rightarrow> Hang)"

definition lift_io :: "exn + 'a \<Rightarrow> 'a io" where
  "lift_io r w = (case r of Inl e \<Rightarrow> Raise e w | Inr a \<Rightarrow> Return a w)"

text \<open>\<open>try: m except Exception: h\<close>.\<close>

definition try_except :: "'a io \<Rightarrow> 'a io \<Rightarrow> 'a io" where
  "try_except m h w =
     (case m w of
        Return a w' \<Rightarrow> Return a w'
      | Raise e w' \<Rightarrow> (if is_Exception e then h w' else Raise e w')
      | Hang \<Rightarrow> Hang)"

text \<open>
  The search response as the stage reads it: \<open>res.get("results", [])\<close> and
  \<open>res.get("images", []) or []\<close>. \<open>None\<close> is a key that is absent (for the images, also
  a null or empty value).
\<close>

record search_response =
  resp_results :: "pyval option"
  resp_images :: "string list option"

type_synonym message = "string \<times> string"

text \<open>
  The collaborators of the pipeline, and the two modules it imports that are not part of
  the sources at hand (\<open>prompts\<close>, \<open>formatting\<close>), as parameters. The model and the search
  service answer the \<open>n\<close>-th call of the run; either may raise. \<open>json_loads\<close> is
  \<open>json.loads\<close>, \<open>None\<close> where it raises \<open>JSONDecodeError\<close>.
\<close>

record env =
  invoke :: "nat \<Rightarrow> message list \<Rightarrow> exn + string"
  search :: "nat \<Rightarrow> pyval \<Rightarrow> nat \<Rightarrow> nat \<Rightarrow> bool \<Rightarrow> bool \<Rightarrow> exn + search_response"
  json_loads :: "string \<Rightarrow> pyval option"
  current_date :: string
  query_writer_instructions :: "string \<Rightarrow> string \<Rightarrow> string"
  summarizer_instructions :: string
  reflection_instructions :: "string \<Rightarrow> string"
  deduplicate_and_format_sources :: "search_response \<Rightarrow> nat \<Rightarrow> string"
  format_sources :: "search_response \<Rightarrow> string"

text \<open>
  \<open>Notifier\<close>: no callback, or a callback. A callback is given by what its latest call
  does, as a function of all the calls it has received, the latest last: \<open>None\<close> when the
  call returns, the exception when it raises. The callback reads its payload. One that
  changes in place a list or dict it is handed (the \<open>results\<close> and \<open>images\<close> of the search
  response, which \<open>web_research\<close> reads again after the call, or a parsed JSON value that
  the stage returns afterwards) is not described by this type: whatever is stated of a
  notifier below is stated of one that leaves the objects of its payload as they are.
\<close>

type_synonym notifier = "(event list \<Rightarrow> exn option) option"

definition quiet :: "notifier \<Rightarrow> bool" where
  "quiet notify = (case notify of None \<Rightarrow> True | Some f \<Rightarrow> \<forall>calls. f calls = None)"

text \<open>\<open>if notify: await notify(name, payload)\<close>.\<close>

definition call_notify :: "notifier \<Rightarrow> string \<Rightarrow> (string \<times> pyval) list \<Rightarrow> unit io" where
  "call_notify notify name payload w =
     (case notify of
        None \<Rightarrow> Return () w
      | Some f \<Rightarrow>
          (let w' = w\<lparr>events := events w @ [(name, payload)]\<rparr>
           in case f (events w') of None \<Rightarrow> Return () w' | Some e \<Rightarrow> Raise e w'))"

text \<open>\<open>(await deep_seek_model.ainvoke(messages)).content\<close>.\<close>

definition call_model :: "env \<Rightarrow> message list \<Rightarrow> string io" where
  "call_model env messages w =
     lift_io (invoke env (llm_calls w) messages) (w\<lparr>llm_calls := Suc (llm_calls w)\<rparr>)"

definition call_search :: "env \<Rightarrow> pyval \<Rightarrow> search_response io" where
  "call_search env query w =
     lift_io (search env (search_calls w) query 1 1000 False True)
       (w\<lparr>search_calls := Suc (search_calls w)\<rparr>)"

text \<open>\<open>_strip_thinking_tokens\<close> inside a coroutine: a loop that never ends hangs it.\<close>

definition strip_io :: "string \<Rightarrow> (string \<times> string) io" where
  "strip_io content w =
     (case strip_thinking_tokens content of None \<Rightarrow> Hang | Some r \<Rightarrow> Return r w)"

definition loads_io :: "env \<Rightarrow> string \<Rightarrow> pyval io" where
  "loads_io env text w =
     (case json_loads env text of None \<Rightarrow> Raise JSONDecodeError w | Some v \<Rightarrow> Return v w)"

section \<open>Pipeline stages (deep_research/pipeline.py)\<close>

definition py_or :: "pyval \<Rightarrow> pyval \<Rightarrow> pyval" where
  "py_or a b = (if truthy a then a else b)"

definition query_messages :: "env \<Rightarrow> summary_state \<Rightarrow> message list" where
  "query_messages env state =
     [(''system'', query_writer_instructions env (current_date env) (research_topic state)),
      (''human'', ''Generate a query for web search:'')]"

definition generate_query :: "env \<Rightarrow> notifier \<Rightarrow> summary_state \<Rightarrow> state_update io" where
  "generate_query env notify state =
     bind_io (call_model env (query_messages env state)) (\<lambda>content.
     bind_io (strip_io content) (\<lambda>(thoughts, text0).
     let text = normalize_latex text0 in
     bind_io (call_notify notify ''thinking'' [(''thoughts'', PStr thoughts)]) (\<lambda>_.
     bind_io (loads_io env text) (\<lambda>query.
     bind_io (lift_io (subscript query ''query'')) (\<lambda>rq.
     bind_io (lift_io (subscript query ''rationale'')) (\<lambda>rationale.
     bind_io (call_notify notify ''generate_query''
                [(''query'', rq), (''rationale'', rationale), (''thoughts'', PStr thoughts)]) (\<lambda>_.
     return_io (no_update\<lparr>upd_search_query := Some rq, upd_rationale := Some rationale\<rparr>))))))))"

definition web_research :: "env \<Rightarrow> notifier \<Rightarrow> summary_state \<Rightarrow> state_update io" where
  "web_research env notify state =
     bind_io (call_search env (search_query state)) (\<lambda>res.
     let imgs = (case resp_images res of None \<Rightarrow> [] | Some xs \<Rightarrow> xs);
         search_str = deduplicate_and_format_sources env res 1000 in
     bind_io (call_notify notify ''web_research''
                [(''sources'', (case resp_results res of None \<Rightarrow> PList [] | Some v \<Rightarrow> v)),
                 (''images'', PList (map PStr imgs))]) (\<lambda>_.
     return_io (no_update\<lparr>
        upd_sources_gathered := Some [format_sources env res],
        upd_research_loop_count := Some (research_loop_count state + 1),
        upd_web_research_results := Some [search_str],
        upd_images := Some (images state @ imgs)\<rparr>)))"

text \<open>\<open>xs[-1]\<close>, which raises \<open>IndexError\<close> on the empty list.\<close>

definition last_item :: "'a list \<Rightarrow> exn + 'a" where
  "last_item xs = (if xs = [] then Inl IndexError else Inr (last xs))"

definition summary_messages :: "env \<Rightarrow> summary_state \<Rightarrow> string \<Rightarrow> message list" where
  "summary_messages env state new_ctx =
     (let existing = running_summary state;
          human =
            (if existing \<noteq> []
             then ''<Existing Summary>\<newline>'' @ existing @ ''\<newline></Existing Summary>\<newline>\<newline>''
                  @ ''<New Context>\<newline>'' @ new_ctx @ ''\<newline></New Context>''
                  @ ''Update the Existing Summary with the New Context on this topic:\<newline><User Input>\<newline>''
                  @ research_topic state @ ''\<newline></User Input>\<newline>\<newline>''
             else ''<Context>\<newline>'' @ new_ctx @ ''\<newline></Context>''
                  @ ''Create a Summary using the Context on this topic:\<newline><User Input>\<newline>''
                  @ research_topic state @ ''\<newline></User Input>\<newline>\<newline>'')
      in [(''system'', summarizer_instructions env), (''human'', human)])"

definition summarize_sources :: "env \<Rightarrow> notifier \<Rightarrow> summary_state \<Rightarrow> state_update io" where
  "summarize_sources env notify state =
     bind_io (lift_io (last_item (web_research_results state))) (\<lambda>new_ctx.
     bind_io (call_model env (summary_messages env state new_ctx)) (\<lambda>content.
     bind_io (strip_io content) (\<lambda>(thoughts, text0).
     let text = normalize_latex text0 in
     bind_io (call_notify notify ''thinking'' [(''thoughts'', PStr thoughts)]) (\<lambda>_.
     bind_io (call_notify notify ''summarize'' [(''summary'', PStr text)]) (\<lambda>_.
     return_io (no_update\<lparr>upd_running_summary := Some text\<rparr>))))))"

definition reflection_messages :: "env \<Rightarrow> summary_state \<Rightarrow> message list" where
  "reflection_messages env state =
     [(''system'', reflection_instructions env (research_topic state)),
      (''human'', ''Reflect on our existing knowledge:\<newline>===\<newline>'' @ running_summary state
         @ ''\<newline>===\<newline>And now identify a knowledge gap and generate a follow-up web search query:'')]"

definition fallback_query :: "summary_state \<Rightarrow> string" where
  "fallback_query state = ''Tell me more about '' @ research_topic state"

definition reflect_on_summary :: "env \<Rightarrow> notifier \<Rightarrow> summary_state \<Rightarrow> state_update io" where
  "reflect_on_summary env notify state =
     bind_io (call_model env (reflection_messages env state)) (\<lambda>content.
     bind_io (strip_io content) (\<lambda>(thoughts, text0).
     let text = normalize_latex text0 in
     bind_io (call_notify notify ''thinking'' [(''thoughts'', PStr thoughts)]) (\<lambda>_.
     try_except
       (bind_io (loads_io env text) (\<lambda>content.
        bind_io (lift_io (py_get content ''follow_up_query'' PNone)) (\<lambda>query.
        bind_io (lift_io (py_get content ''knowledge_gap'' (PStr []))) (\<lambda>gap.
        bind_io (call_notify notify ''reflection''
                   [(''query'', py_or query (PStr [])), (''knowledge_gap'', gap)]) (\<lambda>_.
        return_io (no_update\<lparr>
           upd_search_query := Some (py_or query (PStr (fallback_query state))),
           upd_knowledge_gap := Some gap\<rparr>))))))
       (let fallback = fallback_query state in
        bind_io (call_notify notify ''reflection''
                   [(''query'', PStr fallback),
                    (''knowledge_gap'', PStr ''Unable to identify specific knowledge gap'')]) (\<lambda>_.
        return_io (no_update\<lparr>upd_search_query := Some (PStr fallback)\<rparr>))))))"

text \<open>
  \<open>finalize_summary\<close>. The source first builds an \<open>image_section\<close> from the first one or
  two images and then never uses it; the report is the header, the summary and one line
  per gathered citation block, added by the \<open>for\<close> loop.
\<close>

definition final_report :: "summary_state \<Rightarrow> string" where
  "final_report state =
     foldl (\<lambda>final src. final @ src @ ''\<newline>'')
       (''## Summary\<newline>'' @ running_summary state @ ''\<newline>\<newline>### Sources:\<newline>'')
       (sources_gathered state)"

definition finalize_summary :: "notifier \<Rightarrow> summary_state \<Rightarrow> state_update io" where
  "finalize_summary notify state =
     (let final = final_report state in
      bind_io (call_notify notify ''finalize''
                 [(''summary'', PStr final), (''images'', PList (map PStr (take 2 (images state))))]) (\<lambda>_.
      return_io (no_update\<lparr>upd_running_summary := Some final\<rparr>)))"

section \<open>Orchestrator (\<open>setup_graph\<close>, \<open>run_deep_research\<close>)\<close>

definition route_research :: "notifier \<Rightarrow> summary_state \<Rightarrow> node io" where
  "route_research notify state =
     (if research_loop_count state \<le> 3
      then bind_io (call_notify notify ''routing''
                      [(''decision'', PStr ''continue''),
                       (''loop_count'', PInt (research_loop_count state))]) (\<lambda>_.
           return_io WebResearchNode)
      else bind_io (call_notify notify ''routing''
                      [(''decision'', PStr ''finalize''),
                       (''loop_count'', PInt (research_loop_count state))]) (\<lambda>_.
           return_io FinalizeSummaryNode))"

text \<open>A node has completed: the graph merges its dict into the state.\<close>

definition complete_node :: "node \<Rightarrow> summary_state \<Rightarrow> state_update \<Rightarrow> summary_state io" where
  "complete_node n state u w = Return (apply_update state u) (w\<lparr>visited := visited w @ [n]\<rparr>)"

text \<open>
  One step of the compiled graph: run the node, merge, follow the edge. The edges are
  those of \<open>setup_graph\<close>; the one out of \<open>reflect_on_summary\<close> is conditional.
\<close>

fun step :: "env \<Rightarrow> notifier \<Rightarrow> node \<times> summary_state \<Rightarrow> (node \<times> summary_state) io" where
  "step env notify (GenerateQueryNode, state) =
     bind_io (generate_query env notify state) (\<lambda>u.
     bind_io (complete_node GenerateQueryNode state u) (\<lambda>state'.
     return_io (WebResearchNode, state')))"
| "step env notify (WebResearchNode, state) =
     bind_io (web_research env notify state) (\<lambda>u.
     bind_io (complete_node WebResearchNode state u) (\<lambda>state'.
     return_io (SummarizeSourcesNode, state')))"
| "step env notify (SummarizeSourcesNode, state) =
     bind_io (summarize_sources env notify state) (\<lambda>u.
     bind_io (complete_node SummarizeSourcesNode state u) (\<lambda>state'.
     return_io (ReflectOnSummaryNode, state')))"
| "step env notify (ReflectOnSummaryNode, state) =
     bind_io (reflect_on_summary env notify state) (\<lambda>u.
     bind_io (complete_node ReflectOnSummaryNode state u) (\<lambda>state'.
     bind_io (route_research notify state') (\<lambda>next.
     return_io (next, state'))))"
| "step env notify (FinalizeSummaryNode, state) =
     bind_io (finalize_summary notify state) (\<lambda>u.
     bind_io (complete_node FinalizeSummaryNode state u) (\<lambda>state'.
     return_io (EndNode, state')))"
| "step env notify (EndNode, state) = return_io (EndNode, state)"

text \<open>The number of nodes still to run from a node, by the loop counter.\<close>

fun remaining :: "node \<times> summary_state \<Rightarrow> nat" where
  "remaining (GenerateQueryNode, state) = 5 + 3 * nat (3 - research_loop_count state)"
| "remaining (WebResearchNode, state) = 4 + 3 * nat (3 - research_loop_count state)"
| "remaining (SummarizeSourcesNode, state) = 3 + 3 * nat (4 - research_loop_count state)"
| "remaining (ReflectOnSummaryNode, state) = 2 + 3 * nat (4 - research_loop_count state)"
| "remaining (FinalizeSummaryNode, state) = 1"
| "remaining (EndNode, state) = 0"

text \<open>
  \<open>graph.ainvoke\<close>: the driver runs node after node until \<open>END\<close>; an exception of a node
  ends the run. \<open>run_deep_research\<close> returns the \<open>running_summary\<close> of the final state.
\<close>

function run_graph :: "env \<Rightarrow> notifier \<Rightarrow> node \<times> summary_state \<Rightarrow> summary_state io" where
  "run_graph env notify c w =
     (if fst c = EndNode then Return (snd c) w
      else (case step env notify c w of
              Return c' w' \<Rightarrow> run_graph env notify c' w'
            | Raise e w' \<Rightarrow> Raise e w'
            | Hang \<Rightarrow> Hang))"
  by pat_completeness auto

definition run_deep_research :: "env \<Rightarrow> notifier \<Rightarrow> string \<Rightarrow> string io" where
  "run_deep_research env notify topic =
     bind_io (run_graph env notify (GenerateQueryNode, initial_state topic)) (\<lambda>result.
     return_io (running_summary result))"

section \<open>Notions the properties are stated with\<close>

subsection \<open>Notifier calls\<close>

text \<open>The world after a notifier call that returns.\<close>

definition notified :: "notifier \<Rightarrow> string \<Rightarrow> (string \<times> pyval) list \<Rightarrow> world \<Rightarrow> world" where
  "notified notify name payload w =
     (case notify of None \<Rightarrow> w | Some f \<Rightarrow> w\<lparr>events := events w @ [(name, payload)]\<rparr>)"

subsection \<open>Runs of the graph\<close>

text \<open>
  The configurations a run of \<open>run_deep_research\<close> on \<open>topic\<close> passes through: the node
  to run next, the state, and the world so far.
\<close>

inductive reachable :: "env \<Rightarrow> notifier \<Rightarrow> string \<Rightarrow> node \<times> summary_state \<Rightarrow> world \<Rightarrow> bool"
  for env :: env and notify :: notifier and topic :: string where
  start: "reachable env notify topic (GenerateQueryNode, initial_state topic) initial_world"
| after: "reachable env notify topic c w \<Longrightarrow> fst c \<noteq> EndNode \<Longrightarrow>
         step env notify c w = Return c' w' \<Longrightarrow> reachable env notify topic c' w'"

definition web_rounds :: "world \<Rightarrow> nat" where
  "web_rounds w = count_list (visited w) WebResearchNode"

fun loop_bounds :: "node \<Rightarrow> int \<Rightarrow> bool" where
  "loop_bounds GenerateQueryNode k = (k = 0)"
| "loop_bounds WebResearchNode k = (0 \<le> k \<and> k \<le> 3)"
| "loop_bounds SummarizeSourcesNode k = (1 \<le> k \<and> k \<le> 4)"
| "loop_bounds ReflectOnSummaryNode k = (1 \<le> k \<and> k \<le> 4)"
| "loop_bounds FinalizeSummaryNode k = (k = 4)"
| "loop_bounds EndNode k = (k = 4)"

definition round_nodes :: "node list" where
  "round_nodes = [WebResearchNode, SummarizeSourcesNode, ReflectOnSummaryNode]"

fun trace_before :: "node \<Rightarrow> nat \<Rightarrow> node list" where
  "trace_before GenerateQueryNode k = []"
| "trace_before WebResearchNode k = GenerateQueryNode # concat (replicate k round_nodes)"
| "trace_before SummarizeSourcesNode k =
     GenerateQueryNode # concat (replicate (k - 1) round_nodes) @ [WebResearchNode]"
| "trace_before ReflectOnSummaryNode k =
     GenerateQueryNode # concat (replicate (k - 1) round_nodes)
       @ [WebResearchNode, SummarizeSourcesNode]"
| "trace_before FinalizeSummaryNode k = GenerateQueryNode # concat (replicate k round_nodes)"
| "trace_before EndNode k =
     GenerateQueryNode # concat (replicate k round_nodes) @ [FinalizeSummaryNode]"

subsection \<open>A stub environment\<close>

text \<open>
  A model that answers the query prompt with a query object, every reflection with a
  follow-up object and every summary request with prose after a thinking block; a search
  service that returns one result and one image per call. \<open>json_loads\<close> is \<open>json.loads\<close>
  on the two JSON texts the stub model produces.
\<close>

definition stub_query_json :: string where
  \<open>stub_query_json = ''{"query": "remote work productivity", "rationale": "start broad"}''\<close>

definition stub_reflection_json :: string where
  \<open>stub_reflection_json = ''{"knowledge_gap": "no data", "follow_up_query": "remote work studies"}''\<close>

definition stub_env :: env where
  "stub_env =
     \<lparr>invoke = (\<lambda>n messages.
        Inr (if n = 0 then stub_query_json
             else if even n then stub_reflection_json
             else ''<think>merge</think>A summary.'')),
      search = (\<lambda>n query max_results max_tokens raw_content with_images.
        Inr \<lparr>resp_results = Some (PList [PDict [(''title'', PStr ''T''), (''url'', PStr ''a'')]]),
             resp_images = Some [''u'']\<rparr>),
      json_loads = (\<lambda>t.
        if t = stub_query_json
        then Some (PDict [(''query'', PStr ''remote work productivity''),
                          (''rationale'', PStr ''start broad'')])
        else if t = stub_reflection_json
        then Some (PDict [(''knowledge_gap'', PStr ''no data''),
                          (''follow_up_query'', PStr ''remote work studies'')])
        else None),
      current_date = ''2025-01-01'',
      query_writer_instructions = (\<lambda>date topic. ''Write a query on '' @ topic),
      summarizer_instructions = ''Summarize.'',
      reflection_instructions = (\<lambda>topic. ''Reflect on '' @ topic),
      deduplicate_and_format_sources = (\<lambda>res budget. ''Source: T (a)''),
      format_sources = (\<lambda>res. ''* T : a'')\<rparr>"

definition stub_final_state :: summary_state where
  "stub_final_state =
       \<lparr>research_topic = ''remote work'', search_query = PStr ''remote work studies'',
        rationale = PStr ''start broad'',
        web_research_results = replicate 4 ''Source: T (a)'',
        sources_gathered = replicate 4 ''* T : a'',
        images = replicate 15 ''u'',
        research_loop_count = 4,
        running_summary = ''## Summary\<newline>A summary.\<newline>\<newline>### Sources:\<newline>* T : a\<newline>* T : a\<newline>* T : a\<newline>* T : a\<newline>'',
        knowledge_gap = PStr ''no data'', websocket_id = None, thoughts = []\<rparr>"

definition stub_final_world :: world where
  "stub_final_world =
       \<lparr>llm_calls = 9, search_calls = 4, events = [],
        visited = GenerateQueryNode # concat (replicate 4 round_nodes) @ [FinalizeSummaryNode]\<rparr>"

definition stub_round_state :: summary_state where
  "stub_round_state =
     \<lparr>research_topic = ''remote work'', search_query = PStr [],
      rationale = PStr [], web_research_results = [''Source: T (a)''],
      sources_gathered = [''* T : a''], images = [''u''],
      research_loop_count = 1, running_summary = [],
      knowledge_gap = PStr [], websocket_id = None, thoughts = []\<rparr>"

definition stub_round_world :: world where
  "stub_round_world = \<lparr>llm_calls = 0, search_calls = 1, events = [], visited = [WebResearchNode]\<rparr>"

subsection \<open>The final report\<close>

text \<open>A state with three images and two citation blocks.\<close>

definition stub_report_state :: summary_state where
  "stub_report_state =
     (initial_state ''remote work'')
       \<lparr>running_summary := ''A summary.'', sources_gathered := [''* T : a'', ''* S : b''],
        images := [''u1'', ''u2'', ''u3'']\<rparr>"

subsection \<open>Parsing the model's structured output\<close>

text \<open>
  Stub models for the parse paths: one that answers in prose, one whose reflection object
  has no \<open>follow_up_query\<close> on the first call and a null one afterwards.
\<close>

definition stub_prose_env :: env where
  "stub_prose_env = stub_env\<lparr>invoke := (\<lambda>n messages. Inr ''Sorry, no JSON today.'')\<rparr>"




definition stub_reflect_state :: summary_state where
  "stub_reflect_state = stub_round_state\<lparr>running_summary := ''A summary.''\<rparr>"

text \<open>
  Stub models whose answer to the query prompt is JSON, but not an object with both
  keys: an object without \<open>rationale\<close>, and an empty array.
\<close>

definition stub_partial_json :: string where
  \<open>stub_partial_json = ''{"query": "remote work"}''\<close>

definition stub_partial_env :: env where
  "stub_partial_env =
     stub_env\<lparr>
       invoke := (\<lambda>n messages. Inr stub_partial_json),
       json_loads := (\<lambda>t.
         if t = stub_partial_json then Some (PDict [(''query'', PStr ''remote work'')])
         else if t = ''[]'' then Some (PList [])
         else None)\<rparr>"

definition stub_array_env :: env where
  "stub_array_env = stub_partial_env\<lparr>invoke := (\<lambda>n messages. Inr ''[]'')\<rparr>"

subsection \<open>The notifier\<close>

text \<open>
  Two coroutines do the same but for the notifier calls: from worlds that agree up to the
  events, they return the same value or raise the same exception, in worlds that agree
  up to the events.
\<close>

definition no_events :: "world \<Rightarrow> world" where
  "no_events w = w\<lparr>events := []\<rparr>"

fun silent :: "'a outcome \<Rightarrow> 'a outcome" where
  "silent (Return a w) = Return a (no_events w)"
| "silent (Raise e w) = Raise e (no_events w)"
| "silent Hang = Hang"

definition same_but_events :: "'a io \<Rightarrow> 'a io \<Rightarrow> bool" where
  "same_but_events m m' = (\<forall>w w'. no_events w = no_events w' \<longrightarrow> silent (m w) = silent (m' w'))"

text \<open>
  The notifier calls made between a world \<open>w\<close> and a later world \<open>w'\<close> are the prefixes
  \<open>l\<close> of \<open>events w'\<close> that are longer than \<open>events w\<close>: the call is the last event of \<open>l\<close>,
  and \<open>f l\<close> is what the callback \<open>f\<close> did on it. Between \<open>w\<close> and \<open>w'\<close> the calls are
  \<open>settled\<close> when each of them returned or is a \<open>reflection\<close> event; they are \<open>aborted\<close>
  by \<open>e\<close> when each of them returned, or is a \<open>reflection\<close> event, or is the last call made
  and raised \<open>e\<close>. The \<open>reflection\<close> events are left aside because one of the two calls
  that send them is made inside the \<open>try\<close> block of \<open>reflect_on_summary\<close>.
\<close>

definition settled :: "(event list \<Rightarrow> exn option) \<Rightarrow> world \<Rightarrow> world \<Rightarrow> bool" where
  "settled f w w' =
     (prefix (events w) (events w') \<and>
      (\<forall>l. strict_prefix (events w) l \<and> prefix l (events w') \<longrightarrow>
           f l = None \<or> fst (last l) = ''reflection''))"

definition aborted :: "(event list \<Rightarrow> exn option) \<Rightarrow> exn \<Rightarrow> world \<Rightarrow> world \<Rightarrow> bool" where
  "aborted f e w w' =
     (prefix (events w) (events w') \<and>
      (\<forall>l. strict_prefix (events w) l \<and> prefix l (events w') \<longrightarrow>
           f l = None \<or> fst (last l) = ''reflection'' \<or> (l = events w' \<and> f l = Some e)))"

text \<open>
  A coroutine does not swallow what the callback \<open>f\<close> raises: when it returns, the calls
  it made are settled; when it raises \<open>e\<close>, they are aborted by \<open>e\<close>. The body of a \<open>try\<close>
  may only make \<open>reflection\<close> calls.
\<close>

definition unswallowed :: "(event list \<Rightarrow> exn option) \<Rightarrow> 'a io \<Rightarrow> bool" where
  "unswallowed f m =
     (\<forall>w. case m w of
        Return a w' \<Rightarrow> settled f w w'
      | Raise e w' \<Rightarrow> aborted f e w w'
      | Hang \<Rightarrow> True)"

definition only_reflection :: "(event list \<Rightarrow> exn option) \<Rightarrow> 'a io \<Rightarrow> bool" where
  "only_reflection f m =
     (\<forall>w. case m w of
        Return a w' \<Rightarrow> settled f w w'
      | Raise e w' \<Rightarrow> settled f w w'
      | Hang \<Rightarrow> True)"

text \<open>
  Two callbacks: one that raises whenever it is sent a \<open>web_research\<close> event, one that
  raises on the first \<open>reflection\<close> event it is sent; and the world the stub run has
  reached when the first of them raises.
\<close>

definition stub_web_notifier :: "event list \<Rightarrow> exn option" where
  "stub_web_notifier calls =
     (if calls \<noteq> [] \<and> fst (last calls) = ''web_research''
      then Some (Failure ''notifier down'') else None)"

definition stub_reflection_notifier :: "event list \<Rightarrow> exn option" where
  "stub_reflection_notifier calls =
     (if map fst calls = [''thinking'', ''reflection'']
      then Some (Failure ''notifier down'') else None)"

definition stub_abort_world :: world where
  "stub_abort_world =
     \<lparr>llm_calls = 1, search_calls = 1,
      events =
        [(''thinking'', [(''thoughts'', PStr [])]),
         (''generate_query'',
          [(''query'', PStr ''remote work productivity''), (''rationale'', PStr ''start broad''),
           (''thoughts'', PStr [])]),
         (''web_research'',
          [(''sources'', PList [PDict [(''title'', PStr ''T''), (''url'', PStr ''a'')]]),
           (''images'', PList [PStr ''u''])])],
      visited = [GenerateQueryNode]\<rparr>"

subsection \<open>Normalising the math delimiters\<close>

text \<open>
  A text is in target form when no part outside the code spans has a match of either
  pattern: \<open>has_pair b1 b2 t\<close> says that the pattern of \<open>sub_pair b1 b2\<close> matches somewhere
  in \<open>t\<close>, and \<open>evens\<close> are the parts at the even indices of the split.
\<close>

definition has_pair :: "char \<Rightarrow> char \<Rightarrow> string \<Rightarrow> bool" where
  "has_pair b1 b2 t =
     (case str_find [backslash, b1] t of
        None \<Rightarrow> False
      | Some p \<Rightarrow> str_find [backslash, b2] (drop (p + 2) t) \<noteq> None)"

fun evens :: "'a list \<Rightarrow> 'a list" where
  "evens [] = []"
| "evens [x] = [x]"
| "evens (x # y # xs) = x # evens xs"

definition target_form :: "string \<Rightarrow> bool" where
  "target_form t =
     list_all (\<lambda>seg. \<not> has_pair CHR ''['' CHR '']'' seg \<and> \<not> has_pair CHR ''('' CHR '')'' seg)
       (evens (split_code t))"

subsection \<open>Stripping the thinking markers\<close>

text \<open>
  \<open>marked p0 pairs\<close> is the text \<open>p0 <think>i1</think>o1 ... <think>in</think>on\<close> for
  the pairs \<open>(i1, o1), ..., (in, on)\<close>; \<open>outer_text\<close> is what stands outside the marker
  pairs, joined, and \<open>inner_thoughts\<close> what the loop collects from inside them. A text is
  balanced when its markers nest as brackets do: no end marker without an open start
  marker before it, and none left open at the end.
\<close>

definition think_block :: "string \<times> string \<Rightarrow> string" where
  "think_block pair = think_open @ fst pair @ think_close @ snd pair"

definition marked :: "string \<Rightarrow> (string \<times> string) list \<Rightarrow> string" where
  "marked p0 pairs = p0 @ concat (map think_block pairs)"

definition outer_text :: "string \<Rightarrow> (string \<times> string) list \<Rightarrow> string" where
  "outer_text p0 pairs = p0 @ concat (map snd pairs)"

definition inner_thoughts :: "(string \<times> string) list \<Rightarrow> string" where
  "inner_thoughts pairs = concat (map (\<lambda>pair. str_strip (fst pair) @ ''\<newline>\<newline>'') pairs)"

fun balanced_from :: "nat \<Rightarrow> string \<Rightarrow> bool" where
  "balanced_from d [] = (d = 0)"
| "balanced_from d (c # cs) =
     (if prefix think_open (c # cs) then balanced_from (Suc d) cs
      else if prefix think_close (c # cs) then 0 < d \<and> balanced_from (d - 1) cs
      else balanced_from d cs)"

definition balanced :: "string \<Rightarrow> bool" where
  "balanced t = balanced_from 0 t"

section \<open>Termination of the normaliser's loops\<close>

text \<open>
  Each match that \<open>split_code\<close> and \<open>sub_pair\<close> consume is not empty, so the text
  left to search gets shorter.
\<close>

lemma match_code_pos: "match_code t = Some n \<Longrightarrow> 0 < n"
  by (auto simp: match_code_def Let_def split: if_splits option.splits)

lemma str_find_less: "str_find sub t = Some p \<Longrightarrow> sub \<noteq> [] \<Longrightarrow> p < length t"
  by (induction t arbitrary: p) (auto split: if_splits)

termination split_code
proof (relation "measure length", goal_cases)
  case 1
  show ?case by simp
next
  case (2 t p n)
  from 2(1) have "p < length t" by (rule str_find_less) simp
  moreover from 2(2) have "0 < n" by (rule match_code_pos)
  ultimately show ?case by simp
qed

declare split_code.simps [simp del]

termination sub_pair
proof (relation "measure (\<lambda>(b1, b2, d, t). length t)", goal_cases)
  case 1
  show ?case by simp
next
  case (2 b1 b2 d t p q)
  from 2(1) have "p < length t" by (rule str_find_less) simp
  then show ?case by simp
qed

declare sub_pair.simps [simp del]

section \<open>Effects of the stages on the loop counter and the two result lists\<close>

lemma bind_io_Return:
  "bind_io m f w = Return b w' \<longleftrightarrow> (\<exists>a w1. m w = Return a w1 \<and> f a w1 = Return b w')"
  by (auto simp: bind_io_def split: outcome.splits)

lemma return_io_Return [simp]: "return_io a w = Return b w' \<longleftrightarrow> a = b \<and> w = w'"
  by (auto simp: return_io_def)

lemma return_io_Raise [simp]: "return_io a w \<noteq> Raise e w'"
  by (simp add: return_io_def)

lemma try_except_Return:
  "try_except m h w = Return b w' \<longleftrightarrow>
     m w = Return b w' \<or> (\<exists>e w1. m w = Raise e w1 \<and> is_Exception e \<and> h w1 = Return b w')"
  by (auto simp: try_except_def split: outcome.splits)

lemma generate_query_fields:
  assumes "generate_query env notify state w = Return u w'"
  shows "upd_research_loop_count u = None \<and> upd_web_research_results u = None
         \<and> upd_sources_gathered u = None"
  using assms
  by (auto simp: generate_query_def bind_io_Return Let_def no_update_def split: prod.splits)

lemma web_research_fields:
  assumes "web_research env notify state w = Return u w'"
  shows "upd_research_loop_count u = Some (research_loop_count state + 1)
         \<and> (\<exists>x. upd_web_research_results u = Some [x])
         \<and> (\<exists>y. upd_sources_gathered u = Some [y])"
  using assms
  by (auto simp: web_research_def bind_io_Return Let_def no_update_def split: prod.splits)

lemma summarize_sources_fields:
  assumes "summarize_sources env notify state w = Return u w'"
  shows "upd_research_loop_count u = None \<and> upd_web_research_results u = None
         \<and> upd_sources_gathered u = None"
  using assms
  by (auto simp: summarize_sources_def bind_io_Return Let_def no_update_def split: prod.splits)

lemma reflect_on_summary_fields:
  assumes "reflect_on_summary env notify state w = Return u w'"
  shows "upd_research_loop_count u = None \<and> upd_web_research_results u = None
         \<and> upd_sources_gathered u = None"
  using assms
  by (auto simp: reflect_on_summary_def bind_io_Return try_except_Return Let_def no_update_def split: prod.splits)

lemma finalize_summary_fields:
  assumes "finalize_summary notify state w = Return u w'"
  shows "upd_research_loop_count u = None \<and> upd_web_research_results u = None
         \<and> upd_sources_gathered u = None"
  using assms
  by (auto simp: finalize_summary_def bind_io_Return Let_def no_update_def split: prod.splits)

lemma call_notify_visited:
  "call_notify notify name payload w = Return x w' \<Longrightarrow> visited w' = visited w"
  "call_notify notify name payload w = Raise e w' \<Longrightarrow> visited w' = visited w"
  by (auto simp: call_notify_def Let_def split: option.splits)

lemma call_model_visited:
  "call_model env msgs w = Return x w' \<Longrightarrow> visited w' = visited w"
  "call_model env msgs w = Raise e w' \<Longrightarrow> visited w' = visited w"
  by (auto simp: call_model_def lift_io_def split: sum.splits)

lemma call_search_visited:
  "call_search env q w = Return x w' \<Longrightarrow> visited w' = visited w"
  "call_search env q w = Raise e w' \<Longrightarrow> visited w' = visited w"
  by (auto simp: call_search_def lift_io_def split: sum.splits)

lemma strip_io_Return: "strip_io c w = Return x w' \<longleftrightarrow> strip_thinking_tokens c = Some x \<and> w' = w"
  by (auto simp: strip_io_def split: option.splits)

lemma loads_io_Return: "loads_io env t w = Return x w' \<longleftrightarrow> json_loads env t = Some x \<and> w' = w"
  by (auto simp: loads_io_def split: option.splits)

lemma loads_io_Raise: "loads_io env t w = Raise e w' \<longleftrightarrow> json_loads env t = None \<and> e = JSONDecodeError \<and> w' = w"
  by (auto simp: loads_io_def split: option.splits)

lemma lift_io_Return: "lift_io r w = Return x w' \<longleftrightarrow> r = Inr x \<and> w' = w"
  by (auto simp: lift_io_def split: sum.splits)

lemma lift_io_Raise: "lift_io r w = Raise e w' \<longleftrightarrow> r = Inl e \<and> w' = w"
  by (auto simp: lift_io_def split: sum.splits)

lemma bind_io_Raise:
  "bind_io m f w = Raise e w' \<longleftrightarrow>
     m w = Raise e w' \<or> (\<exists>a w1. m w = Return a w1 \<and> f a w1 = Raise e w')"
  by (auto simp: bind_io_def split: outcome.splits)

lemma generate_query_visited:
  assumes "generate_query env notify state w = Return u w'"
  shows "visited w' = visited w"
  using assms
  by (auto simp: generate_query_def bind_io_Return Let_def strip_io_Return loads_io_Return lift_io_Return
      split: prod.splits dest!: call_notify_visited call_model_visited)

lemma web_research_visited:
  assumes "web_research env notify state w = Return u w'"
  shows "visited w' = visited w"
  using assms
  by (auto simp: web_research_def bind_io_Return Let_def
      split: prod.splits dest!: call_notify_visited call_search_visited)

lemma summarize_sources_visited:
  assumes "summarize_sources env notify state w = Return u w'"
  shows "visited w' = visited w"
  using assms
  by (auto simp: summarize_sources_def bind_io_Return Let_def strip_io_Return lift_io_Return
      split: prod.splits dest!: call_notify_visited call_model_visited)

lemma reflect_on_summary_visited:
  assumes "reflect_on_summary env notify state w = Return u w'"
  shows "visited w' = visited w"
  using assms
  by (auto simp: reflect_on_summary_def bind_io_Return bind_io_Raise try_except_Return Let_def
        strip_io_Return loads_io_Return loads_io_Raise lift_io_Return lift_io_Raise
      split: prod.splits dest!: call_notify_visited call_model_visited)

lemma finalize_summary_visited:
  assumes "finalize_summary notify state w = Return u w'"
  shows "visited w' = visited w"
  using assms
  by (auto simp: finalize_summary_def bind_io_Return Let_def dest!: call_notify_visited)

lemma route_research_Return:
  assumes "route_research notify state w = Return n w'"
  shows "n = (if research_loop_count state \<le> 3 then WebResearchNode else FinalizeSummaryNode)
         \<and> visited w' = visited w"
  using assms
  by (auto simp: route_research_def bind_io_Return split: if_splits dest!: call_notify_visited)

lemma step_effect:
  assumes "step env notify (n, state) w = Return (n', state') w'" and "n \<noteq> EndNode"
  shows "research_loop_count state' =
           research_loop_count state + (if n = WebResearchNode then 1 else 0)"
    and "length (web_research_results state') =
           length (web_research_results state) + (if n = WebResearchNode then 1 else 0)"
    and "length (sources_gathered state') =
           length (sources_gathered state) + (if n = WebResearchNode then 1 else 0)"
    and "visited w' = visited w @ [n]"
    and "n' = (case n of
                 GenerateQueryNode \<Rightarrow> WebResearchNode
               | WebResearchNode \<Rightarrow> SummarizeSourcesNode
               | SummarizeSourcesNode \<Rightarrow> ReflectOnSummaryNode
               | ReflectOnSummaryNode \<Rightarrow>
                   (if research_loop_count state \<le> 3 then WebResearchNode
                    else FinalizeSummaryNode)
               | FinalizeSummaryNode \<Rightarrow> EndNode
               | EndNode \<Rightarrow> EndNode)"
proof -
  have "(research_loop_count state' =
           research_loop_count state + (if n = WebResearchNode then 1 else 0))
      \<and> (length (web_research_results state') =
           length (web_research_results state) + (if n = WebResearchNode then 1 else 0))
      \<and> (length (sources_gathered state') =
           length (sources_gathered state) + (if n = WebResearchNode then 1 else 0))
      \<and> visited w' = visited w @ [n]
      \<and> n' = (case n of
                 GenerateQueryNode \<Rightarrow> WebResearchNode
               | WebResearchNode \<Rightarrow> SummarizeSourcesNode
               | SummarizeSourcesNode \<Rightarrow> ReflectOnSummaryNode
               | ReflectOnSummaryNode \<Rightarrow>
                   (if research_loop_count state \<le> 3 then WebResearchNode
                    else FinalizeSummaryNode)
               | FinalizeSummaryNode \<Rightarrow> EndNode
               | EndNode \<Rightarrow> EndNode)"
  proof (cases n)
    case GenerateQueryNode
    with assms obtain u w1 where u: "generate_query env notify state w = Return u w1"
      and c: "complete_node GenerateQueryNode state u w1 = Return state' w'" and n': "n' = WebResearchNode"
      by (auto simp: bind_io_Return)
    from generate_query_fields[OF u] generate_query_visited[OF u] c n' GenerateQueryNode
    show ?thesis
      by (auto simp: complete_node_def apply_update_def overwrite_def add_reducer_def)
  next
    case WebResearchNode
    with assms obtain u w1 where u: "web_research env notify state w = Return u w1"
      and c: "complete_node WebResearchNode state u w1 = Return state' w'" and n': "n' = SummarizeSourcesNode"
      by (auto simp: bind_io_Return)
    from web_research_fields[OF u] web_research_visited[OF u] c n' WebResearchNode
    show ?thesis
      by (auto simp: complete_node_def apply_update_def overwrite_def add_reducer_def)
  next
    case SummarizeSourcesNode
    with assms obtain u w1 where u: "summarize_sources env notify state w = Return u w1"
      and c: "complete_node SummarizeSourcesNode state u w1 = Return state' w'" and n': "n' = ReflectOnSummaryNode"
      by (auto simp: bind_io_Return)
    from summarize_sources_fields[OF u] summarize_sources_visited[OF u] c n' SummarizeSourcesNode
    show ?thesis
      by (auto simp: complete_node_def apply_update_def overwrite_def add_reducer_def)
  next
    case ReflectOnSummaryNode
    with assms obtain u w1 w2 where u: "reflect_on_summary env notify state w = Return u w1"
      and c: "complete_node ReflectOnSummaryNode state u w1 = Return state' w2"
      and r: "route_research notify state' w2 = Return n' w'"
      by (auto simp: bind_io_Return)
    from reflect_on_summary_fields[OF u] reflect_on_summary_visited[OF u] c
      route_research_Return[OF r] ReflectOnSummaryNode
    show ?thesis
      by (auto simp: complete_node_def apply_update_def overwrite_def add_reducer_def)
  next
    case FinalizeSummaryNode
    with assms obtain u w1 where u: "finalize_summary notify state w = Return u w1"
      and c: "complete_node FinalizeSummaryNode state u w1 = Return state' w'" and n': "n' = EndNode"
      by (auto simp: bind_io_Return)
    from finalize_summary_fields[OF u] finalize_summary_visited[OF u] c n' FinalizeSummaryNode
    show ?thesis
      by (auto simp: complete_node_def apply_update_def overwrite_def add_reducer_def)
  next
    case EndNode
    with assms show ?thesis by simp
  qed
  then show "research_loop_count state' =
           research_loop_count state + (if n = WebResearchNode then 1 else 0)"
    and "length (web_research_results state') =
           length (web_research_results state) + (if n = WebResearchNode then 1 else 0)"
    and "length (sources_gathered state') =
           length (sources_gathered state) + (if n = WebResearchNode then 1 else 0)"
    and "visited w' = visited w @ [n]"
    and "n' = (case n of
                 GenerateQueryNode \<Rightarrow> WebResearchNode
               | WebResearchNode \<Rightarrow> SummarizeSourcesNode
               | SummarizeSourcesNode \<Rightarrow> ReflectOnSummaryNode
               | ReflectOnSummaryNode \<Rightarrow>
                   (if research_loop_count state \<le> 3 then WebResearchNode
                    else FinalizeSummaryNode)
               | FinalizeSummaryNode \<Rightarrow> EndNode
               | EndNode \<Rightarrow> EndNode)"
    by simp_all
qed

lemma step_remaining:
  assumes "step env notify c w = Return c' w'" and "fst c \<noteq> EndNode"
  shows "remaining c' < remaining c"
proof -
  obtain n state n' state' where c: "c = (n, state)" "c' = (n', state')"
    by (cases c, cases c') auto
  from step_effect(1,5)[OF assms(1)[unfolded c]] assms(2) c
  show ?thesis
    by (cases n) (auto split: if_splits)
qed

termination run_graph
proof (relation "measure (\<lambda>(env, notify, c, w). remaining c)", goal_cases)
  case 1
  show ?case by simp
next
  case (2 env notify c w c' w')
  then show ?case by (simp add: step_remaining)
qed

declare run_graph.simps [simp del]

text \<open>What a step does to the two result lists.\<close>

lemma web_research_update:
  assumes "web_research env notify state w = Return u w'"
  shows "\<exists>res. search env (search_calls w) (search_query state) 1 1000 False True = Inr res
           \<and> u = no_update\<lparr>
                 upd_sources_gathered := Some [format_sources env res],
                 upd_research_loop_count := Some (research_loop_count state + 1),
                 upd_web_research_results := Some [deduplicate_and_format_sources env res 1000],
                 upd_images := Some (images state @ (case resp_images res of None \<Rightarrow> [] | Some xs \<Rightarrow> xs))\<rparr>"
  using assms
  by (auto simp: web_research_def bind_io_Return Let_def call_search_def lift_io_Return)

lemma step_lists:
  assumes "step env notify (n, state) w = Return (n', state') w'" and "n \<noteq> EndNode"
  shows "if n = WebResearchNode
         then (\<exists>res. search env (search_calls w) (search_query state) 1 1000 False True = Inr res
                 \<and> web_research_results state' =
                     web_research_results state @ [deduplicate_and_format_sources env res 1000]
                 \<and> sources_gathered state' = sources_gathered state @ [format_sources env res])
         else web_research_results state' = web_research_results state
              \<and> sources_gathered state' = sources_gathered state"
proof (cases n)
  case GenerateQueryNode
  with assms obtain u w1 where u: "generate_query env notify state w = Return u w1"
    and c: "complete_node GenerateQueryNode state u w1 = Return state' w'"
    by (auto simp: bind_io_Return)
  from generate_query_fields[OF u] c GenerateQueryNode show ?thesis
    by (auto simp: complete_node_def apply_update_def add_reducer_def)
next
  case WebResearchNode
  with assms obtain u w1 where u: "web_research env notify state w = Return u w1"
    and c: "complete_node WebResearchNode state u w1 = Return state' w'"
    by (auto simp: bind_io_Return)
  from web_research_update[OF u] c WebResearchNode show ?thesis
    by (auto simp: complete_node_def apply_update_def add_reducer_def no_update_def)
next
  case SummarizeSourcesNode
  with assms obtain u w1 where u: "summarize_sources env notify state w = Return u w1"
    and c: "complete_node SummarizeSourcesNode state u w1 = Return state' w'"
    by (auto simp: bind_io_Return)
  from summarize_sources_fields[OF u] c SummarizeSourcesNode show ?thesis
    by (auto simp: complete_node_def apply_update_def add_reducer_def)
next
  case ReflectOnSummaryNode
  with assms obtain u w1 w2 where u: "reflect_on_summary env notify state w = Return u w1"
    and c: "complete_node ReflectOnSummaryNode state u w1 = Return state' w2"
    by (auto simp: bind_io_Return)
  from reflect_on_summary_fields[OF u] c ReflectOnSummaryNode show ?thesis
    by (auto simp: complete_node_def apply_update_def add_reducer_def)
next
  case FinalizeSummaryNode
  with assms obtain u w1 where u: "finalize_summary notify state w = Return u w1"
    and c: "complete_node FinalizeSummaryNode state u w1 = Return state' w'"
    by (auto simp: bind_io_Return)
  from finalize_summary_fields[OF u] c FinalizeSummaryNode show ?thesis
    by (auto simp: complete_node_def apply_update_def add_reducer_def)
next
  case EndNode
  with assms show ?thesis by simp
qed

lemma quiet_call_notify:
  "quiet notify \<Longrightarrow> call_notify notify name payload w = Return () (notified notify name payload w)"
  by (auto simp: quiet_def call_notify_def notified_def Let_def split: option.splits)

lemma bind_io_Return_eq: "m w = Return a w1 \<Longrightarrow> bind_io m f w = f a w1"
  by (simp add: bind_io_def)

section \<open>Runs of the graph\<close>

lemma web_rounds_snoc:
  "visited w' = visited w @ [n] \<Longrightarrow>
   web_rounds w' = web_rounds w + (if n = WebResearchNode then 1 else 0)"
  by (simp add: web_rounds_def)

lemma reachable_counts:
  assumes "reachable env notify topic c w"
  shows "research_loop_count (snd c) = int (web_rounds w)
       \<and> length (web_research_results (snd c)) = web_rounds w
       \<and> length (sources_gathered (snd c)) = web_rounds w"
  using assms
proof (induction rule: reachable.induct)
  case start
  show ?case by (simp add: initial_state_def initial_world_def web_rounds_def)
next
  case (after c w c' w')
  obtain n state n' state' where c: "c = (n, state)" "c' = (n', state')"
    by (cases c, cases c') auto
  from after.hyps(2) c have n: "n \<noteq> EndNode" by simp
  note eff = step_effect[OF after.hyps(3)[unfolded c] n]
  from after.IH c eff(1,2,3) web_rounds_snoc[OF eff(4)]
  show ?case by (simp split: if_splits)
qed

lemma reachable_bounds:
  assumes "reachable env notify topic c w"
  shows "loop_bounds (fst c) (research_loop_count (snd c))"
  using assms
proof (induction rule: reachable.induct)
  case start
  show ?case by (simp add: initial_state_def)
next
  case (after c w c' w')
  obtain n state n' state' where c: "c = (n, state)" "c' = (n', state')"
    by (cases c, cases c') auto
  from after.hyps(2) c have n: "n \<noteq> EndNode" by simp
  note eff = step_effect[OF after.hyps(3)[unfolded c] n]
  from after.IH c eff(1,5) n
  show ?case by (cases n) (auto split: if_splits)
qed

lemma run_graph_reachable:
  assumes "run_graph env notify c w = Return state' w'"
    and "reachable env notify topic c w"
  shows "reachable env notify topic (EndNode, state') w'"
  using assms
proof (induction env notify c w rule: run_graph.induct)
  case (1 env notify c w)
  show ?case
  proof (cases "fst c = EndNode")
    case True
    with 1(2) have "state' = snd c" "w' = w" by (simp_all add: run_graph.simps)
    with True 1(3) show ?thesis by (cases c) simp
  next
    case False
    with 1(2) obtain c1 w1 where s: "step env notify c w = Return c1 w1"
      and r: "run_graph env notify c1 w1 = Return state' w'"
      by (auto simp: run_graph.simps[of env notify c w] split: outcome.splits)
    from 1(3) False s have "reachable env notify topic c1 w1" by (rule reachable.after)
    with 1(1)[OF False s r] show ?thesis .
  qed
qed

lemma concat_replicate_commute:
  "concat (replicate k xs) @ xs = xs @ concat (replicate k xs)"
  by (induction k) simp_all

lemma concat_replicate_snoc:
  "0 < k \<Longrightarrow> concat (replicate (k - 1) xs) @ xs = concat (replicate k xs)"
  by (cases k) (simp_all add: concat_replicate_commute)

lemma reachable_trace:
  assumes "reachable env notify topic c w"
  shows "visited w = trace_before (fst c) (nat (research_loop_count (snd c)))"
  using assms
proof (induction rule: reachable.induct)
  case start
  show ?case by (simp add: initial_world_def)
next
  case (after c w c' w')
  obtain n state n' state' where c: "c = (n, state)" "c' = (n', state')"
    by (cases c, cases c') auto
  from after.hyps(2) c have n: "n \<noteq> EndNode" by simp
  note eff = step_effect[OF after.hyps(3)[unfolded c] n]
  from reachable_bounds[OF after.hyps(1)] c
  have b: "loop_bounds n (research_loop_count state)" by simp
  from after.IH c have v: "visited w = trace_before n (nat (research_loop_count state))" by simp
  show ?case
  proof (cases n)
    case GenerateQueryNode
    with eff v b c show ?thesis by simp
  next
    case WebResearchNode
    with eff v b c show ?thesis by (simp add: nat_add_distrib)
  next
    case SummarizeSourcesNode
    with eff v b c show ?thesis by simp
  next
    case ReflectOnSummaryNode
    with b have "0 < nat (research_loop_count state)" by simp
    from concat_replicate_snoc[OF this, of round_nodes] ReflectOnSummaryNode eff v c
    show ?thesis by (simp add: round_nodes_def)
  next
    case FinalizeSummaryNode
    with eff v b c show ?thesis by simp
  next
    case EndNode
    with n show ?thesis by simp
  qed
qed

section \<open>A stub environment\<close>

lemma stub_graph_run:
  "run_graph stub_env None (GenerateQueryNode, initial_state ''remote work'') initial_world =
     Return stub_final_state stub_final_world"
  by code_simp

lemma stub_web_step:
  "step stub_env None (WebResearchNode, initial_state ''remote work'') initial_world =
     Return (SummarizeSourcesNode, stub_round_state) stub_round_world"
  by code_simp

lemma stub_finalize_step:
  "step stub_env None (FinalizeSummaryNode, initial_state ''remote work'') initial_world =
     Return (EndNode, (initial_state ''remote work'')\<lparr>running_summary := ''## Summary\<newline>\<newline>\<newline>### Sources:\<newline>''\<rparr>)
       (initial_world\<lparr>visited := [FinalizeSummaryNode]\<rparr>)"
  by code_simp

section \<open>The thinking-marker loop need not end\<close>

text \<open>
  When the first end marker stands before the first start marker, \<open>text[s+7:e]\<close> is
  empty and \<open>text[:s] + text[e+8:]\<close> keeps both markers: on \<open></think><think>\<close> the
  rewritten text is the text itself, and the loop goes round for ever.
\<close>

lemma strip_loop_avoids:
  assumes "strip_loop th0 tx0 = Some z0"
  shows "tx0 \<noteq> ''</think><think>''"
proof (rule strip_loop.raw_induct[where P = "\<lambda>th tx z. tx \<noteq> ''</think><think>''", OF _ assms],
    goal_cases)
  case (1 strip_loop' th tx z)
  show ?case
  proof
    assume t: "tx = ''</think><think>''"
    have s: "str_find think_open tx = Some 8" and e: "str_find think_close tx = Some 0"
      by (simp_all add: t think_open_def think_close_def)
    from 1(2) have "strip_loop' (th @ str_strip (slice tx (8 + 7) 0) @ ''\<newline>\<newline>'')
                      (take 8 tx @ drop (0 + 8) tx) = Some z"
      by (simp add: s e)
    then have "take 8 tx @ drop (0 + 8) tx \<noteq> ''</think><think>''"
      by (rule 1(1))
    then show False by (simp add: t)
  qed
qed

text \<open>
  C9 (the stripper terminates on every input, also when an end marker occurs before the
  first start marker): on the input \<open></think><think>\<close> the loop of
  \<open>_strip_thinking_tokens\<close> never ends, so the function returns nothing.
\<close>

theorem strip_thinking_tokens_hangs:
  "strip_thinking_tokens ''</think><think>'' = None"
proof (cases "strip_loop [] ''</think><think>''")
  case None
  then show ?thesis by (simp add: strip_thinking_tokens_def)
next
  case (Some z)
  from strip_loop_avoids[OF this] show ?thesis by simp
qed

section \<open>Routing and the number of rounds\<close>

text \<open>
  C1. The routing decision depends on the loop counter alone: with a notifier that
  returns, \<open>route_research\<close> returns \<open>web_research\<close> for a counter in \<open>{0, 1, 2, 3}\<close> and
  \<open>finalize_summary\<close> for a counter of at least 4, and whatever it returns is the node
  the counter fixes. A run of the graph that returns has completed the query node, then
  exactly four rounds of web research, summary and reflection, then the final node.
\<close>

theorem route_research_deterministic:
  "(quiet notify \<longrightarrow> research_loop_count state \<in> {0, 1, 2, 3} \<longrightarrow>
      (\<exists>w1. route_research notify state w = Return WebResearchNode w1))
   \<and> (quiet notify \<longrightarrow> 4 \<le> research_loop_count state \<longrightarrow>
      (\<exists>w1. route_research notify state w = Return FinalizeSummaryNode w1))
   \<and> (\<forall>n w1. route_research notify state w = Return n w1 \<longrightarrow>
        n = (if research_loop_count state \<le> 3 then WebResearchNode else FinalizeSummaryNode))
   \<and> (run_graph env notify (GenerateQueryNode, initial_state topic) initial_world
         = Return final w2 \<longrightarrow>
        visited w2 = GenerateQueryNode # concat (replicate 4 round_nodes) @ [FinalizeSummaryNode]
        \<and> count_list (visited w2) WebResearchNode = 4
        \<and> research_loop_count final = 4)"
proof (intro conjI impI allI)
  assume q: "quiet notify" and "research_loop_count state \<in> {0, 1, 2, 3}"
  then have "research_loop_count state \<le> 3" by auto
  then show "\<exists>w1. route_research notify state w = Return WebResearchNode w1"
    by (simp add: route_research_def bind_io_Return_eq[OF quiet_call_notify[OF q]] return_io_def)
next
  assume q: "quiet notify" and "4 \<le> research_loop_count state"
  then have "\<not> research_loop_count state \<le> 3" by simp
  then show "\<exists>w1. route_research notify state w = Return FinalizeSummaryNode w1"
    by (simp add: route_research_def bind_io_Return_eq[OF quiet_call_notify[OF q]] return_io_def)
next
  fix n w1 assume "route_research notify state w = Return n w1"
  from route_research_Return[OF this]
  show "n = (if research_loop_count state \<le> 3 then WebResearchNode else FinalizeSummaryNode)"
    by simp
next
  assume r: "run_graph env notify (GenerateQueryNode, initial_state topic) initial_world = Return final w2"
  have "reachable env notify topic (EndNode, final) w2"
    by (rule run_graph_reachable[OF r reachable.start])
  from reachable_trace[OF this] reachable_bounds[OF this]
  have v: "visited w2 = GenerateQueryNode # concat (replicate 4 round_nodes) @ [FinalizeSummaryNode]"
    and k: "research_loop_count final = 4"
    by simp_all
  show "visited w2 = GenerateQueryNode # concat (replicate 4 round_nodes) @ [FinalizeSummaryNode]"
    by (rule v)
  show "count_list (visited w2) WebResearchNode = 4"
    by (simp add: v round_nodes_def numeral_eq_Suc)
  show "research_loop_count final = 4" by (rule k)
qed

theorem route_research_deterministic_witness:
  "quiet None
   \<and> research_loop_count (initial_state ''remote work'') \<in> {0, 1, 2, 3}
   \<and> (\<exists>w1. route_research None (initial_state ''remote work'') initial_world
             = Return WebResearchNode w1)
   \<and> 4 \<le> research_loop_count stub_final_state
   \<and> (\<exists>w1. route_research None stub_final_state initial_world = Return FinalizeSummaryNode w1)
   \<and> run_graph stub_env None (GenerateQueryNode, initial_state ''remote work'') initial_world
        = Return stub_final_state stub_final_world
   \<and> count_list (visited stub_final_world) WebResearchNode = 4"
  using route_research_deterministic[where notify = None and state = "initial_state ''remote work''"
      and w = initial_world and env = stub_env and topic = "''remote work''"
      and final = stub_final_state and ?w2.0 = stub_final_world]
    route_research_deterministic[where notify = None and state = stub_final_state
      and w = initial_world and env = stub_env and topic = "''remote work''"
      and final = stub_final_state and ?w2.0 = stub_final_world]
    stub_graph_run
  by (simp add: quiet_def initial_state_def stub_final_state_def)

section \<open>The loop counter counts the web-research rounds\<close>

text \<open>
  C2. In every configuration a run passes through, with \<open>N\<close> the number of completed
  \<open>web_research\<close> nodes, \<open>research_loop_count\<close> is \<open>N\<close> and \<open>web_research_results\<close> and
  \<open>sources_gathered\<close> both have \<open>N\<close> entries. A completed \<open>web_research\<close> node adds one to
  the counter and appends exactly one formatted context block and one citation block of
  the search response; a completed node of any other kind leaves all three as they were.
\<close>

theorem web_research_rounds:
  "(reachable env notify topic (n, state) w \<longrightarrow>
      research_loop_count state = int (web_rounds w)
      \<and> length (web_research_results state) = web_rounds w
      \<and> length (sources_gathered state) = web_rounds w)
   \<and> (step env notify (WebResearchNode, state) w = Return (n', state') w' \<longrightarrow>
      research_loop_count state' = research_loop_count state + 1
      \<and> web_rounds w' = web_rounds w + 1
      \<and> (\<exists>res. search env (search_calls w) (search_query state) 1 1000 False True = Inr res
            \<and> web_research_results state' =
                web_research_results state @ [deduplicate_and_format_sources env res 1000]
            \<and> sources_gathered state' = sources_gathered state @ [format_sources env res]))
   \<and> (n \<noteq> WebResearchNode \<longrightarrow> n \<noteq> EndNode \<longrightarrow>
      step env notify (n, state) w = Return (n', state') w' \<longrightarrow>
      research_loop_count state' = research_loop_count state
      \<and> web_rounds w' = web_rounds w
      \<and> web_research_results state' = web_research_results state
      \<and> sources_gathered state' = sources_gathered state)"
proof (intro conjI impI)
  assume r: "reachable env notify topic (n, state) w"
  from reachable_counts[OF r]
  show "research_loop_count state = int (web_rounds w)"
    and "length (web_research_results state) = web_rounds w"
    and "length (sources_gathered state) = web_rounds w"
    by simp_all
next
  assume s: "step env notify (WebResearchNode, state) w = Return (n', state') w'"
  have ne: "WebResearchNode \<noteq> EndNode" by simp
  from step_effect(1)[OF s ne]
  show "research_loop_count state' = research_loop_count state + 1" by simp
  from web_rounds_snoc[OF step_effect(4)[OF s ne]]
  show "web_rounds w' = web_rounds w + 1" by simp
  from step_lists[OF s ne]
  show "\<exists>res. search env (search_calls w) (search_query state) 1 1000 False True = Inr res
            \<and> web_research_results state' =
                web_research_results state @ [deduplicate_and_format_sources env res 1000]
            \<and> sources_gathered state' = sources_gathered state @ [format_sources env res]"
    by simp
next
  assume n: "n \<noteq> WebResearchNode" "n \<noteq> EndNode"
    and s: "step env notify (n, state) w = Return (n', state') w'"
  from step_effect(1)[OF s n(2)] n(1)
  show "research_loop_count state' = research_loop_count state" by simp
  from web_rounds_snoc[OF step_effect(4)[OF s n(2)]] n(1)
  show "web_rounds w' = web_rounds w" by simp
  from step_lists[OF s n(2)] n(1)
  show "web_research_results state' = web_research_results state"
    and "sources_gathered state' = sources_gathered state"
    by simp_all
qed

theorem web_research_rounds_witness:
  "reachable stub_env None ''remote work'' (EndNode, stub_final_state) stub_final_world
   \<and> web_rounds stub_final_world = 4
   \<and> research_loop_count stub_final_state = 4
   \<and> length (web_research_results stub_final_state) = 4
   \<and> length (sources_gathered stub_final_state) = 4
   \<and> step stub_env None (WebResearchNode, initial_state ''remote work'') initial_world
        = Return (SummarizeSourcesNode, stub_round_state) stub_round_world
   \<and> research_loop_count stub_round_state = research_loop_count (initial_state ''remote work'') + 1
   \<and> web_research_results stub_round_state = [''Source: T (a)'']
   \<and> sources_gathered stub_round_state = [''* T : a'']
   \<and> FinalizeSummaryNode \<noteq> WebResearchNode \<and> FinalizeSummaryNode \<noteq> EndNode
   \<and> (\<exists>c w1. step stub_env None (FinalizeSummaryNode, initial_state ''remote work'') initial_world
                = Return c w1
          \<and> web_research_results (snd c) = web_research_results (initial_state ''remote work''))"
proof -
  have r: "reachable stub_env None ''remote work'' (EndNode, stub_final_state) stub_final_world"
    by (rule run_graph_reachable[OF stub_graph_run reachable.start])
  have n: "web_rounds stub_final_world = 4"
    by (simp add: web_rounds_def stub_final_world_def round_nodes_def numeral_eq_Suc)
  note a = web_research_rounds[where env = stub_env and notify = None and topic = "''remote work''"
      and n = EndNode and state = stub_final_state and w = stub_final_world]
  note b = web_research_rounds[where env = stub_env and notify = None
      and state = "initial_state ''remote work''" and w = initial_world
      and n' = SummarizeSourcesNode and state' = stub_round_state and w' = stub_round_world]
  note c = web_research_rounds[where env = stub_env and notify = None
      and n = FinalizeSummaryNode
      and state = "initial_state ''remote work''" and w = initial_world
      and n' = EndNode
      and state' = "(initial_state ''remote work'')\<lparr>running_summary := ''## Summary\<newline>\<newline>\<newline>### Sources:\<newline>''\<rparr>"
      and w' = "initial_world\<lparr>visited := [FinalizeSummaryNode]\<rparr>"]
  from a r n b c stub_web_step stub_finalize_step show ?thesis
    by (simp add: stub_round_state_def stub_final_state_def)
qed

section \<open>The final report\<close>

lemma call_notify_Return:
  "call_notify notify name payload w = Return x w' \<Longrightarrow> w' = notified notify name payload w"
  by (auto simp: call_notify_def notified_def Let_def split: option.splits)

lemma final_report_loop:
  "foldl (\<lambda>final src. final @ src @ sep) start srcs = start @ concat (map (\<lambda>src. src @ sep) srcs)"
  by (induction srcs arbitrary: start) simp_all

lemma final_report_eq:
  "final_report state =
     ''## Summary\<newline>'' @ running_summary state @ ''\<newline>\<newline>### Sources:\<newline>''
       @ concat (map (\<lambda>src. src @ ''\<newline>'') (sources_gathered state))"
  unfolding final_report_def by (simp only: final_report_loop append_assoc)

lemma finalize_summary_Return:
  assumes "finalize_summary notify state w = Return u w'"
  shows "u = no_update\<lparr>upd_running_summary := Some (final_report state)\<rparr>"
    and "w' = notified notify ''finalize''
               [(''summary'', PStr (final_report state)),
                (''images'', PList (map PStr (take 2 (images state))))] w"
  using assms
  by (auto simp: finalize_summary_def Let_def bind_io_Return dest: call_notify_Return)

lemma finalize_summary_quiet:
  assumes "quiet notify"
  shows "finalize_summary notify state w =
           Return (no_update\<lparr>upd_running_summary := Some (final_report state)\<rparr>)
             (notified notify ''finalize''
               [(''summary'', PStr (final_report state)),
                (''images'', PList (map PStr (take 2 (images state))))] w)"
  by (simp add: finalize_summary_def Let_def bind_io_Return_eq[OF quiet_call_notify[OF assms]]
      return_io_def)

lemma run_graph_last_step:
  assumes "run_graph env notify (GenerateQueryNode, initial_state topic) initial_world
             = Return final w2"
  shows "\<exists>state w. reachable env notify topic (FinalizeSummaryNode, state) w
           \<and> step env notify (FinalizeSummaryNode, state) w = Return (EndNode, final) w2"
proof -
  have "reachable env notify topic (EndNode, final) w2"
    by (rule run_graph_reachable[OF assms reachable.start])
  then obtain c w where r: "reachable env notify topic c w" and e: "fst c \<noteq> EndNode"
    and s: "step env notify c w = Return (EndNode, final) w2"
    by (subst (asm) reachable.simps) (auto simp del: step.simps)
  obtain n state where c: "c = (n, state)" by (cases c)
  from e c have n: "n \<noteq> EndNode" by simp
  from step_effect(5)[OF s[unfolded c] n] n
  have f: "n = FinalizeSummaryNode" by (cases n) (auto split: if_splits)
  from r c f have "reachable env notify topic (FinalizeSummaryNode, state) w" by simp
  moreover from s c f
  have "step env notify (FinalizeSummaryNode, state) w = Return (EndNode, final) w2"
    by (simp del: step.simps)
  ultimately show ?thesis by blast
qed

lemma stub_quiet_run:
  "case run_graph stub_env (Some (\<lambda>calls. None)) (GenerateQueryNode, initial_state ''remote work'')
          initial_world of
     Return final w \<Rightarrow> final = stub_final_state | Raise e w \<Rightarrow> False | Hang \<Rightarrow> False"
  by code_simp

text \<open>
  C6. \<open>finalize_summary\<close> returns as the new \<open>running_summary\<close> the header
  \<open>## Summary\<close>, the running summary, the \<open>### Sources:\<close> line and every gathered
  citation block in order, one per line; a notifier receives one \<open>finalize\<close> event with
  that report and the first \<open>min 2 (len images)\<close> images, which for three images are the
  first two. In a run that returns, the \<open>finalize\<close> event is the last event and carries
  the report the run returns.
\<close>

theorem finalize_summary_report:
  "(quiet notify \<longrightarrow>
      finalize_summary notify state w =
        Return
          (no_update\<lparr>upd_running_summary :=
             Some (''## Summary\<newline>'' @ running_summary state @ ''\<newline>\<newline>### Sources:\<newline>''
                   @ concat (map (\<lambda>src. src @ ''\<newline>'') (sources_gathered state)))\<rparr>)
          (notified notify ''finalize''
             [(''summary'',
               PStr (''## Summary\<newline>'' @ running_summary state @ ''\<newline>\<newline>### Sources:\<newline>''
                     @ concat (map (\<lambda>src. src @ ''\<newline>'') (sources_gathered state)))),
              (''images'', PList (map PStr (take 2 (images state))))] w))
   \<and> length (take 2 (images state)) = min 2 (length (images state))
   \<and> (quiet (Some f) \<longrightarrow> images state = [u1, u2, u3] \<longrightarrow>
        (\<exists>u w'. finalize_summary (Some f) state w = Return u w'
           \<and> events w' = events w @
               [(''finalize'',
                 [(''summary'', PStr (final_report state)),
                  (''images'', PList [PStr u1, PStr u2])])]))
   \<and> (run_graph env (Some f) (GenerateQueryNode, initial_state topic) initial_world
         = Return final w2 \<longrightarrow>
        events w2 \<noteq> []
        \<and> last (events w2) =
            (''finalize'',
             [(''summary'', PStr (running_summary final)),
              (''images'', PList (map PStr (take 2 (images final))))]))"
proof (intro conjI impI)
  assume q: "quiet notify"
  show "finalize_summary notify state w =
        Return
          (no_update\<lparr>upd_running_summary :=
             Some (''## Summary\<newline>'' @ running_summary state @ ''\<newline>\<newline>### Sources:\<newline>''
                   @ concat (map (\<lambda>src. src @ ''\<newline>'') (sources_gathered state)))\<rparr>)
          (notified notify ''finalize''
             [(''summary'',
               PStr (''## Summary\<newline>'' @ running_summary state @ ''\<newline>\<newline>### Sources:\<newline>''
                     @ concat (map (\<lambda>src. src @ ''\<newline>'') (sources_gathered state)))),
              (''images'', PList (map PStr (take 2 (images state))))] w)"
    using finalize_summary_quiet[OF q, of state w] by (simp only: final_report_eq)
next
  show "length (take 2 (images state)) = min 2 (length (images state))" by simp
next
  assume q: "quiet (Some f)" and i: "images state = [u1, u2, u3]"
  show "\<exists>u w'. finalize_summary (Some f) state w = Return u w'
           \<and> events w' = events w @
               [(''finalize'',
                 [(''summary'', PStr (final_report state)),
                  (''images'', PList [PStr u1, PStr u2])])]"
    using finalize_summary_quiet[OF q, of state w] i by (simp add: notified_def)
next
  assume r: "run_graph env (Some f) (GenerateQueryNode, initial_state topic) initial_world
         = Return final w2"
  from run_graph_last_step[OF r] obtain state w
    where s: "step env (Some f) (FinalizeSummaryNode, state) w = Return (EndNode, final) w2"
    by blast
  then obtain u w1 where u: "finalize_summary (Some f) state w = Return u w1"
    and c: "complete_node FinalizeSummaryNode state u w1 = Return final w2"
    by (auto simp: bind_io_Return)
  from finalize_summary_Return[OF u] c
  have e: "events w2 = events w @
             [(''finalize'', [(''summary'', PStr (final_report state)),
                (''images'', PList (map PStr (take 2 (images state))))])]"
    and f: "running_summary final = final_report state" "images final = images state"
    by (auto simp: complete_node_def notified_def apply_update_def overwrite_def add_reducer_def
        no_update_def)
  from e show "events w2 \<noteq> []" by simp
  from e f show "last (events w2) =
            (''finalize'',
             [(''summary'', PStr (running_summary final)),
              (''images'', PList (map PStr (take 2 (images final))))])"
    by simp
qed

theorem finalize_summary_report_witness:
  "quiet (Some (\<lambda>calls. None))
   \<and> finalize_summary (Some (\<lambda>calls. None)) stub_report_state initial_world =
       Return
         (no_update\<lparr>upd_running_summary :=
            Some ''## Summary\<newline>A summary.\<newline>\<newline>### Sources:\<newline>* T : a\<newline>* S : b\<newline>''\<rparr>)
         (initial_world\<lparr>events :=
            [(''finalize'',
              [(''summary'', PStr ''## Summary\<newline>A summary.\<newline>\<newline>### Sources:\<newline>* T : a\<newline>* S : b\<newline>''),
               (''images'', PList [PStr ''u1'', PStr ''u2''])])]\<rparr>)
   \<and> images stub_report_state = [''u1'', ''u2'', ''u3'']
   \<and> (\<exists>w2. run_graph stub_env (Some (\<lambda>calls. None))
               (GenerateQueryNode, initial_state ''remote work'') initial_world
             = Return stub_final_state w2
          \<and> last (events w2) =
              (''finalize'',
               [(''summary'', PStr (running_summary stub_final_state)),
                (''images'', PList [PStr ''u'', PStr ''u''])]))"
proof -
  have q: "quiet (Some (\<lambda>calls. None))" by (simp add: quiet_def)
  obtain w2 where r: "run_graph stub_env (Some (\<lambda>calls. None))
      (GenerateQueryNode, initial_state ''remote work'') initial_world = Return stub_final_state w2"
    using stub_quiet_run
    by (cases "run_graph stub_env (Some (\<lambda>calls. None))
          (GenerateQueryNode, initial_state ''remote work'') initial_world") simp_all
  note a = finalize_summary_report[where notify = "Some (\<lambda>calls. None)" and f = "\<lambda>calls. None"
      and state = stub_report_state and w = initial_world and ?u1.0 = "''u1''" and ?u2.0 = "''u2''"
      and ?u3.0 = "''u3''" and env = stub_env and topic = "''remote work''"
      and final = stub_final_state and ?w2.0 = w2]
  have i: "images stub_report_state = [''u1'', ''u2'', ''u3'']"
    by (simp add: stub_report_state_def)
  have l: "last (events w2) =
              (''finalize'',
               [(''summary'', PStr (running_summary stub_final_state)),
                (''images'', PList [PStr ''u'', PStr ''u''])])"
    using a[THEN conjunct2, THEN conjunct2, THEN conjunct2, rule_format, OF r]
    by (simp add: stub_final_state_def numeral_eq_Suc)
  have f: "finalize_summary (Some (\<lambda>calls. None)) stub_report_state initial_world =
       Return
         (no_update\<lparr>upd_running_summary :=
            Some ''## Summary\<newline>A summary.\<newline>\<newline>### Sources:\<newline>* T : a\<newline>* S : b\<newline>''\<rparr>)
         (initial_world\<lparr>events :=
            [(''finalize'',
              [(''summary'', PStr ''## Summary\<newline>A summary.\<newline>\<newline>### Sources:\<newline>* T : a\<newline>* S : b\<newline>''),
               (''images'', PList [PStr ''u1'', PStr ''u2''])])]\<rparr>)"
    using a[THEN conjunct1, rule_format, OF q]
    by (simp add: stub_report_state_def initial_state_def notified_def initial_world_def)
  from q f i r l show ?thesis by blast
qed

section \<open>Parsing the model's structured output\<close>

lemmas io_defs = bind_io_def call_model_def lift_io_def strip_io_def loads_io_def return_io_def
  try_except_def Let_def

text \<open>
  C5 (on parseable output \<open>generate_query\<close> returns the parsed query and rationale),
  refuted: \<open>json.loads\<close> parsing the answer is not enough. On the JSON object
  \<open>{"query": "remote work"}\<close> the subscript \<open>query["rationale"]\<close> raises \<open>KeyError\<close>, and
  on the JSON array \<open>[]\<close> the subscript \<open>query["query"]\<close> raises \<open>TypeError\<close>; the stage
  returns nothing and the run ends in that exception after one model call.
\<close>

theorem generate_query_parsed_raises:
  "json_loads stub_partial_env (normalize_latex stub_partial_json)
     = Some (PDict [(''query'', PStr ''remote work'')])
   \<and> generate_query stub_partial_env None (initial_state ''remote work'') initial_world
       = Raise (KeyError ''rationale'') (initial_world\<lparr>llm_calls := 1\<rparr>)
   \<and> run_deep_research stub_partial_env None ''remote work'' initial_world
       = Raise (KeyError ''rationale'') (initial_world\<lparr>llm_calls := 1\<rparr>)
   \<and> json_loads stub_array_env (normalize_latex ''[]'') = Some (PList [])
   \<and> generate_query stub_array_env None (initial_state ''remote work'') initial_world
       = Raise TypeError (initial_world\<lparr>llm_calls := 1\<rparr>)
   \<and> run_deep_research stub_array_env None ''remote work'' initial_world
       = Raise TypeError (initial_world\<lparr>llm_calls := 1\<rparr>)"
  by code_simp

text \<open>
  C5, amended. When the model's answer to the query prompt is not parseable JSON,
  \<open>generate_query\<close> raises the \<open>JSONDecodeError\<close> of \<open>json.loads\<close>. When the answer parses
  to an object with the keys \<open>query\<close> and \<open>rationale\<close>, the stage returns them as
  \<open>search_query\<close> and \<open>rationale\<close>. When it parses to anything else the stage raises too:
  \<open>KeyError\<close> of the first missing key for an object, \<open>TypeError\<close> for a value that is not
  an object. Whatever \<open>generate_query\<close> raises, \<open>run_deep_research\<close> raises the same
  exception in the same world: the model has been called once, no node has completed and
  no report is returned. (The model call returns, the thinking-marker loop ends and the
  notifier returns.)
\<close>

theorem generate_query_parse:
  "(invoke env (llm_calls w) (query_messages env state) = Inr content \<longrightarrow>
    strip_thinking_tokens content = Some (th, tx) \<longrightarrow> quiet notify \<longrightarrow>
      (json_loads env (normalize_latex tx) = None \<longrightarrow>
         generate_query env notify state w =
           Raise JSONDecodeError
             (notified notify ''thinking'' [(''thoughts'', PStr th)]
                (w\<lparr>llm_calls := Suc (llm_calls w)\<rparr>)))
      \<and> (json_loads env (normalize_latex tx) = Some (PDict kvs) \<longrightarrow>
         map_of kvs ''query'' = Some rq \<longrightarrow> map_of kvs ''rationale'' = Some ra \<longrightarrow>
         generate_query env notify state w =
           Return (no_update\<lparr>upd_search_query := Some rq, upd_rationale := Some ra\<rparr>)
             (notified notify ''generate_query''
                [(''query'', rq), (''rationale'', ra), (''thoughts'', PStr th)]
                (notified notify ''thinking'' [(''thoughts'', PStr th)]
                   (w\<lparr>llm_calls := Suc (llm_calls w)\<rparr>))))
      \<and> (json_loads env (normalize_latex tx) = Some (PDict kvs) \<longrightarrow>
         map_of kvs ''query'' = None \<longrightarrow>
         generate_query env notify state w =
           Raise (KeyError ''query'')
             (notified notify ''thinking'' [(''thoughts'', PStr th)]
                (w\<lparr>llm_calls := Suc (llm_calls w)\<rparr>)))
      \<and> (json_loads env (normalize_latex tx) = Some (PDict kvs) \<longrightarrow>
         map_of kvs ''query'' = Some rq \<longrightarrow> map_of kvs ''rationale'' = None \<longrightarrow>
         generate_query env notify state w =
           Raise (KeyError ''rationale'')
             (notified notify ''thinking'' [(''thoughts'', PStr th)]
                (w\<lparr>llm_calls := Suc (llm_calls w)\<rparr>)))
      \<and> (json_loads env (normalize_latex tx) = Some v \<longrightarrow> (\<forall>kvs. v \<noteq> PDict kvs) \<longrightarrow>
         generate_query env notify state w =
           Raise TypeError
             (notified notify ''thinking'' [(''thoughts'', PStr th)]
                (w\<lparr>llm_calls := Suc (llm_calls w)\<rparr>))))
   \<and> (generate_query env notify (initial_state topic) initial_world = Raise e w' \<longrightarrow>
        run_deep_research env notify topic initial_world = Raise e w')
   \<and> (invoke env 0 (query_messages env (initial_state topic)) = Inr content \<longrightarrow>
      strip_thinking_tokens content = Some (th, tx) \<longrightarrow> quiet notify \<longrightarrow>
      json_loads env (normalize_latex tx) = None \<longrightarrow>
        run_deep_research env notify topic initial_world =
          Raise JSONDecodeError
            (notified notify ''thinking'' [(''thoughts'', PStr th)]
               (initial_world\<lparr>llm_calls := 1\<rparr>)))"
proof (intro conjI impI)
  assume i: "invoke env (llm_calls w) (query_messages env state) = Inr content"
    and s: "strip_thinking_tokens content = Some (th, tx)" and q: "quiet notify"
    and l: "json_loads env (normalize_latex tx) = None"
  show "generate_query env notify state w =
           Raise JSONDecodeError
             (notified notify ''thinking'' [(''thoughts'', PStr th)]
                (w\<lparr>llm_calls := Suc (llm_calls w)\<rparr>))"
    by (simp add: generate_query_def io_defs i s l quiet_call_notify[OF q])
next
  assume i: "invoke env (llm_calls w) (query_messages env state) = Inr content"
    and s: "strip_thinking_tokens content = Some (th, tx)" and q: "quiet notify"
    and l: "json_loads env (normalize_latex tx) = Some (PDict kvs)"
    and k: "map_of kvs ''query'' = Some rq" "map_of kvs ''rationale'' = Some ra"
  show "generate_query env notify state w =
           Return (no_update\<lparr>upd_search_query := Some rq, upd_rationale := Some ra\<rparr>)
             (notified notify ''generate_query''
                [(''query'', rq), (''rationale'', ra), (''thoughts'', PStr th)]
                (notified notify ''thinking'' [(''thoughts'', PStr th)]
                   (w\<lparr>llm_calls := Suc (llm_calls w)\<rparr>)))"
    by (simp add: generate_query_def io_defs i s l k quiet_call_notify[OF q])
next
  assume i: "invoke env (llm_calls w) (query_messages env state) = Inr content"
    and s: "strip_thinking_tokens content = Some (th, tx)" and q: "quiet notify"
    and l: "json_loads env (normalize_latex tx) = Some (PDict kvs)"
    and k: "map_of kvs ''query'' = None"
  show "generate_query env notify state w =
           Raise (KeyError ''query'')
             (notified notify ''thinking'' [(''thoughts'', PStr th)]
                (w\<lparr>llm_calls := Suc (llm_calls w)\<rparr>))"
    by (simp add: generate_query_def io_defs i s l k quiet_call_notify[OF q])
next
  assume i: "invoke env (llm_calls w) (query_messages env state) = Inr content"
    and s: "strip_thinking_tokens content = Some (th, tx)" and q: "quiet notify"
    and l: "json_loads env (normalize_latex tx) = Some (PDict kvs)"
    and k: "map_of kvs ''query'' = Some rq" "map_of kvs ''rationale'' = None"
  show "generate_query env notify state w =
           Raise (KeyError ''rationale'')
             (notified notify ''thinking'' [(''thoughts'', PStr th)]
                (w\<lparr>llm_calls := Suc (llm_calls w)\<rparr>))"
    by (simp add: generate_query_def io_defs i s l k quiet_call_notify[OF q])
next
  assume i: "invoke env (llm_calls w) (query_messages env state) = Inr content"
    and s: "strip_thinking_tokens content = Some (th, tx)" and q: "quiet notify"
    and l: "json_loads env (normalize_latex tx) = Some v"
    and k: "\<forall>kvs. v \<noteq> PDict kvs"
  from k have t: "subscript v ''query'' = Inl TypeError" by (cases v) simp_all
  show "generate_query env notify state w =
           Raise TypeError
             (notified notify ''thinking'' [(''thoughts'', PStr th)]
                (w\<lparr>llm_calls := Suc (llm_calls w)\<rparr>))"
    by (simp add: generate_query_def io_defs i s l t quiet_call_notify[OF q])
next
  assume "generate_query env notify (initial_state topic) initial_world = Raise e w'"
  then show "run_deep_research env notify topic initial_world = Raise e w'"
    by (simp add: run_deep_research_def run_graph.simps bind_io_def)
next
  assume i: "invoke env 0 (query_messages env (initial_state topic)) = Inr content"
    and s: "strip_thinking_tokens content = Some (th, tx)" and q: "quiet notify"
    and l: "json_loads env (normalize_latex tx) = None"
  have "generate_query env notify (initial_state topic) initial_world =
           Raise JSONDecodeError
             (notified notify ''thinking'' [(''thoughts'', PStr th)]
                (initial_world\<lparr>llm_calls := 1\<rparr>))"
    by (simp add: generate_query_def io_defs i s l quiet_call_notify[OF q] initial_world_def)
  then show "run_deep_research env notify topic initial_world =
          Raise JSONDecodeError
            (notified notify ''thinking'' [(''thoughts'', PStr th)]
               (initial_world\<lparr>llm_calls := 1\<rparr>))"
    by (simp add: run_deep_research_def run_graph.simps bind_io_def)
qed

theorem generate_query_parse_witness:
  "invoke stub_prose_env 0 (query_messages stub_prose_env (initial_state ''remote work''))
     = Inr ''Sorry, no JSON today.''
   \<and> strip_thinking_tokens ''Sorry, no JSON today.'' = Some ([], ''Sorry, no JSON today.'')
   \<and> quiet None
   \<and> json_loads stub_prose_env (normalize_latex ''Sorry, no JSON today.'') = None
   \<and> generate_query stub_prose_env None (initial_state ''remote work'') initial_world
       = Raise JSONDecodeError (initial_world\<lparr>llm_calls := 1\<rparr>)
   \<and> run_deep_research stub_prose_env None ''remote work'' initial_world
       = Raise JSONDecodeError (initial_world\<lparr>llm_calls := 1\<rparr>)
   \<and> invoke stub_env 0 (query_messages stub_env (initial_state ''remote work''))
       = Inr stub_query_json
   \<and> strip_thinking_tokens stub_query_json = Some ([], stub_query_json)
   \<and> json_loads stub_env (normalize_latex stub_query_json)
       = Some (PDict [(''query'', PStr ''remote work productivity''),
                      (''rationale'', PStr ''start broad'')])
   \<and> generate_query stub_env None (initial_state ''remote work'') initial_world
       = Return
           (no_update\<lparr>upd_search_query := Some (PStr ''remote work productivity''),
                      upd_rationale := Some (PStr ''start broad'')\<rparr>)
           (initial_world\<lparr>llm_calls := 1\<rparr>)
   \<and> invoke stub_partial_env 0 (query_messages stub_partial_env (initial_state ''remote work''))
       = Inr stub_partial_json
   \<and> strip_thinking_tokens stub_partial_json = Some ([], stub_partial_json)
   \<and> json_loads stub_partial_env (normalize_latex stub_partial_json)
       = Some (PDict [(''query'', PStr ''remote work'')])
   \<and> generate_query stub_partial_env None (initial_state ''remote work'') initial_world
       = Raise (KeyError ''rationale'') (initial_world\<lparr>llm_calls := 1\<rparr>)
   \<and> run_deep_research stub_partial_env None ''remote work'' initial_world
       = Raise (KeyError ''rationale'') (initial_world\<lparr>llm_calls := 1\<rparr>)
   \<and> invoke stub_array_env 0 (query_messages stub_array_env (initial_state ''remote work''))
       = Inr ''[]''
   \<and> strip_thinking_tokens ''[]'' = Some ([], ''[]'')
   \<and> json_loads stub_array_env (normalize_latex ''[]'') = Some (PList [])
   \<and> generate_query stub_array_env None (initial_state ''remote work'') initial_world
       = Raise TypeError (initial_world\<lparr>llm_calls := 1\<rparr>)"
proof -
  have i: "invoke stub_prose_env (llm_calls initial_world)
             (query_messages stub_prose_env (initial_state ''remote work''))
           = Inr ''Sorry, no JSON today.''"
    by (simp add: stub_prose_env_def)
  have i0: "invoke stub_prose_env 0 (query_messages stub_prose_env (initial_state ''remote work''))
           = Inr ''Sorry, no JSON today.''"
    by (simp add: stub_prose_env_def)
  have s: "strip_thinking_tokens ''Sorry, no JSON today.'' = Some ([], ''Sorry, no JSON today.'')"
    by code_simp
  have q: "quiet None" by (simp add: quiet_def)
  have l: "json_loads stub_prose_env (normalize_latex ''Sorry, no JSON today.'') = None"
    by code_simp
  have j: "invoke stub_env (llm_calls initial_world)
             (query_messages stub_env (initial_state ''remote work'')) = Inr stub_query_json"
    by (simp add: stub_env_def initial_world_def)
  have j0: "invoke stub_env 0 (query_messages stub_env (initial_state ''remote work''))
             = Inr stub_query_json"
    by (simp add: stub_env_def)
  have t: "strip_thinking_tokens stub_query_json = Some ([], stub_query_json)"
    by code_simp
  have m: "json_loads stub_env (normalize_latex stub_query_json)
       = Some (PDict [(''query'', PStr ''remote work productivity''),
                      (''rationale'', PStr ''start broad'')])"
    by code_simp
  have k: "map_of [(''query'', PStr ''remote work productivity''),
                   (''rationale'', PStr ''start broad'')] ''query''
             = Some (PStr ''remote work productivity'')"
    "map_of [(''query'', PStr ''remote work productivity''),
             (''rationale'', PStr ''start broad'')] ''rationale'' = Some (PStr ''start broad'')"
    by simp_all
  have p: "invoke stub_partial_env (llm_calls initial_world)
             (query_messages stub_partial_env (initial_state ''remote work''))
           = Inr stub_partial_json"
    by (simp add: stub_partial_env_def)
  have p0: "invoke stub_partial_env 0
             (query_messages stub_partial_env (initial_state ''remote work''))
           = Inr stub_partial_json"
    by (simp add: stub_partial_env_def)
  have pt: "strip_thinking_tokens stub_partial_json = Some ([], stub_partial_json)"
    by code_simp
  have pm: "json_loads stub_partial_env (normalize_latex stub_partial_json)
       = Some (PDict [(''query'', PStr ''remote work'')])"
    by code_simp
  have pk: "map_of [(''query'', PStr ''remote work'')] ''query'' = Some (PStr ''remote work'')"
    "map_of [(''query'', PStr ''remote work'')] ''rationale'' = None"
    by simp_all
  have a: "invoke stub_array_env (llm_calls initial_world)
             (query_messages stub_array_env (initial_state ''remote work'')) = Inr ''[]''"
    by (simp add: stub_array_env_def)
  have a0: "invoke stub_array_env 0
             (query_messages stub_array_env (initial_state ''remote work'')) = Inr ''[]''"
    by (simp add: stub_array_env_def)
  have at: "strip_thinking_tokens ''[]'' = Some ([], ''[]'')"
    by code_simp
  have am: "json_loads stub_array_env (normalize_latex ''[]'') = Some (PList [])"
    by code_simp
  have ak: "PList [] \<noteq> PDict kvs" for kvs by simp
  note prose = generate_query_parse[where env = stub_prose_env and notify = None
      and state = "initial_state ''remote work''" and w = initial_world and topic = "''remote work''"]
  note full = generate_query_parse[where env = stub_env and notify = None
      and state = "initial_state ''remote work''" and w = initial_world]
  note partial = generate_query_parse[where env = stub_partial_env and notify = None
      and state = "initial_state ''remote work''" and w = initial_world
      and topic = "''remote work''"]
  note array = generate_query_parse[where env = stub_array_env and notify = None
      and state = "initial_state ''remote work''" and w = initial_world]
  have 1: "generate_query stub_prose_env None (initial_state ''remote work'') initial_world
       = Raise JSONDecodeError (initial_world\<lparr>llm_calls := 1\<rparr>)"
    using prose[THEN conjunct1, rule_format, OF i s q, THEN conjunct1, rule_format, OF l]
    by (simp add: notified_def initial_world_def)
  have 2: "run_deep_research stub_prose_env None ''remote work'' initial_world
       = Raise JSONDecodeError (initial_world\<lparr>llm_calls := 1\<rparr>)"
    using prose[THEN conjunct2, THEN conjunct2, rule_format, OF i0 s q l]
    by (simp add: notified_def)
  have 3: "generate_query stub_env None (initial_state ''remote work'') initial_world
       = Return
           (no_update\<lparr>upd_search_query := Some (PStr ''remote work productivity''),
                      upd_rationale := Some (PStr ''start broad'')\<rparr>)
           (initial_world\<lparr>llm_calls := 1\<rparr>)"
    using full[THEN conjunct1, rule_format, OF j t q, THEN conjunct2, THEN conjunct1,
        rule_format, OF m k]
    by (simp add: notified_def initial_world_def)
  have 4: "generate_query stub_partial_env None (initial_state ''remote work'') initial_world
       = Raise (KeyError ''rationale'') (initial_world\<lparr>llm_calls := 1\<rparr>)"
    using partial[THEN conjunct1, rule_format, OF p pt q, THEN conjunct2, THEN conjunct2,
        THEN conjunct2, THEN conjunct1, rule_format, OF pm pk]
    by (simp add: notified_def initial_world_def)
  have 5: "run_deep_research stub_partial_env None ''remote work'' initial_world
       = Raise (KeyError ''rationale'') (initial_world\<lparr>llm_calls := 1\<rparr>)"
    by (rule partial[THEN conjunct2, THEN conjunct1, rule_format, OF 4])
  have 6: "generate_query stub_array_env None (initial_state ''remote work'') initial_world
       = Raise TypeError (initial_world\<lparr>llm_calls := 1\<rparr>)"
    using array[THEN conjunct1, rule_format, OF a at q, THEN conjunct2, THEN conjunct2,
        THEN conjunct2, THEN conjunct2, rule_format, OF am ak]
    by (simp add: notified_def initial_world_def)
  from i0 s q l 1 2 j0 t m 3 p0 pt pm 4 5 a0 at am 6 show ?thesis by blast
qed



text \<open>
  The \<open>except\<close> branch of \<open>reflect_on_summary\<close>: the output is not JSON, or is JSON but
  not an object (\<open>.get\<close> raises \<open>AttributeError\<close>). The stage returns the templated
  query; the diagnostic gap goes to the notifier only.
\<close>

lemma reflect_on_summary_fallback:
  assumes "invoke env (llm_calls w) (reflection_messages env state) = Inr content"
    and "strip_thinking_tokens content = Some (th, tx)" and "quiet notify"
    and "case json_loads env (normalize_latex tx) of
           None \<Rightarrow> True | Some (PDict kvs) \<Rightarrow> False | Some v \<Rightarrow> True"
  shows "reflect_on_summary env notify state w =
       Return
         (no_update\<lparr>upd_search_query := Some (PStr (''Tell me more about '' @ research_topic state))\<rparr>)
         (notified notify ''reflection''
            [(''query'', PStr (''Tell me more about '' @ research_topic state)),
             (''knowledge_gap'', PStr ''Unable to identify specific knowledge gap'')]
            (notified notify ''thinking'' [(''thoughts'', PStr th)]
               (w\<lparr>llm_calls := Suc (llm_calls w)\<rparr>)))"
proof (cases "json_loads env (normalize_latex tx)")
  case None
  then show ?thesis
    by (simp add: reflect_on_summary_def io_defs assms(1,2) quiet_call_notify[OF assms(3)]
        fallback_query_def)
next
  case (Some v)
  with assms(4) have "py_get v ''follow_up_query'' PNone = Inl AttributeError"
    by (cases v) simp_all
  with Some show ?thesis
    by (simp add: reflect_on_summary_def io_defs assms(1,2) quiet_call_notify[OF assms(3)]
        fallback_query_def)
qed

text \<open>
  C3 (on output that is not valid JSON, \<open>reflect_on_summary\<close> returns the templated query
  and sets \<open>knowledge_gap\<close> to the fixed diagnostic string): on the prose answer the stage
  does not raise and returns the templated query, and it tells the notifier the diagnostic
  gap, but the dict it returns has no \<open>knowledge_gap\<close> key, so the state keeps the gap it
  had.
\<close>

theorem reflect_fallback_omits_gap:
  "json_loads stub_prose_env ''Sorry, no JSON today.'' = None
   \<and> reflect_on_summary stub_prose_env (Some (\<lambda>calls. None)) stub_reflect_state initial_world
       = Return
           (no_update\<lparr>upd_search_query := Some (PStr ''Tell me more about remote work'')\<rparr>)
           (initial_world\<lparr>llm_calls := 1,
              events :=
                [(''thinking'', [(''thoughts'', PStr [])]),
                 (''reflection'',
                  [(''query'', PStr ''Tell me more about remote work''),
                   (''knowledge_gap'', PStr ''Unable to identify specific knowledge gap'')])]\<rparr>)
   \<and> upd_knowledge_gap
        (no_update\<lparr>upd_search_query := Some (PStr ''Tell me more about remote work'')\<rparr>) = None
   \<and> knowledge_gap
        (apply_update stub_reflect_state
           (no_update\<lparr>upd_search_query := Some (PStr ''Tell me more about remote work'')\<rparr>))
       = PStr []"
  by code_simp

section \<open>The notifier\<close>

lemma same_return: "same_but_events (return_io a) (return_io a)"
  by (simp add: same_but_events_def return_io_def)

lemma same_bind:
  assumes "same_but_events m m'" and "\<And>a. same_but_events (f a) (f' a)"
  shows "same_but_events (bind_io m f) (bind_io m' f')"
  unfolding same_but_events_def
proof (intro allI impI)
  fix w w' :: world
  assume e: "no_events w = no_events w'"
  with assms(1) have s: "silent (m w) = silent (m' w')" by (simp add: same_but_events_def)
  show "silent (bind_io m f w) = silent (bind_io m' f' w')"
  proof (cases "m w")
    case (Return a w1)
    with s obtain w1' where r: "m' w' = Return a w1'" and e1: "no_events w1 = no_events w1'"
      by (cases "m' w'") auto
    from assms(2)[of a] e1 have "silent (f a w1) = silent (f' a w1')"
      by (simp add: same_but_events_def)
    with Return r show ?thesis by (simp add: bind_io_def)
  next
    case (Raise x w1)
    with s obtain w1' where r: "m' w' = Raise x w1'" and e1: "no_events w1 = no_events w1'"
      by (cases "m' w'") auto
    with Raise show ?thesis by (simp add: bind_io_def)
  next
    case Hang
    with s have "m' w' = Hang" by (cases "m' w'") auto
    with Hang show ?thesis by (simp add: bind_io_def)
  qed
qed

lemma same_try:
  assumes "same_but_events m m'" and "same_but_events h h'"
  shows "same_but_events (try_except m h) (try_except m' h')"
  unfolding same_but_events_def
proof (intro allI impI)
  fix w w' :: world
  assume e: "no_events w = no_events w'"
  with assms(1) have s: "silent (m w) = silent (m' w')" by (simp add: same_but_events_def)
  show "silent (try_except m h w) = silent (try_except m' h' w')"
  proof (cases "m w")
    case (Return a w1)
    with s obtain w1' where r: "m' w' = Return a w1'" and e1: "no_events w1 = no_events w1'"
      by (cases "m' w'") auto
    with Return show ?thesis by (simp add: try_except_def)
  next
    case (Raise x w1)
    with s obtain w1' where r: "m' w' = Raise x w1'" and e1: "no_events w1 = no_events w1'"
      by (cases "m' w'") auto
    from assms(2) e1 have "silent (h w1) = silent (h' w1')"
      by (simp add: same_but_events_def)
    with Raise r e1 show ?thesis by (simp add: try_except_def)
  next
    case Hang
    with s have "m' w' = Hang" by (cases "m' w'") auto
    with Hang show ?thesis by (simp add: try_except_def)
  qed
qed

lemma no_events_fields:
  assumes "no_events w = no_events w'"
  shows "llm_calls w = llm_calls w'" "search_calls w = search_calls w'" "visited w = visited w'"
proof -
  from assms have "llm_calls (no_events w) = llm_calls (no_events w')"
    "search_calls (no_events w) = search_calls (no_events w')"
    "visited (no_events w) = visited (no_events w')" by simp_all
  then show "llm_calls w = llm_calls w'" "search_calls w = search_calls w'"
    "visited w = visited w'"
    by (simp_all add: no_events_def)
qed

lemma no_events_eq:
  "no_events w = no_events w' \<longleftrightarrow>
     llm_calls w = llm_calls w' \<and> search_calls w = search_calls w' \<and> visited w = visited w'"
  by (cases w, cases w') (simp add: no_events_def)

lemma no_events_notified: "no_events (notified notify name payload w) = no_events w"
  by (simp add: notified_def no_events_def split: option.splits)

lemma same_notify:
  assumes "quiet notify"
  shows "same_but_events (call_notify notify name payload) (call_notify None name payload)"
  unfolding same_but_events_def
proof (intro allI impI)
  fix w w' :: world
  assume "no_events w = no_events w'"
  moreover have "call_notify None name payload w' = Return () w'"
    by (simp add: call_notify_def)
  ultimately show "silent (call_notify notify name payload w)
      = silent (call_notify None name payload w')"
    by (simp add: quiet_call_notify[OF assms] no_events_notified)
qed

lemma same_model: "same_but_events (call_model env messages) (call_model env messages)"
  by (auto simp: same_but_events_def call_model_def lift_io_def no_events_eq split: sum.splits)

lemma same_search: "same_but_events (call_search env query) (call_search env query)"
  by (auto simp: same_but_events_def call_search_def lift_io_def no_events_eq split: sum.splits)

lemma same_strip: "same_but_events (strip_io content) (strip_io content)"
  by (auto simp: same_but_events_def strip_io_def split: option.splits)

lemma same_loads: "same_but_events (loads_io env t) (loads_io env t)"
  by (auto simp: same_but_events_def loads_io_def split: option.splits)

lemma same_lift: "same_but_events (lift_io r) (lift_io r)"
  by (auto simp: same_but_events_def lift_io_def split: sum.splits)

lemma same_complete: "same_but_events (complete_node n state u) (complete_node n state u)"
  by (auto simp: same_but_events_def complete_node_def no_events_eq)

lemma same_case_prod:
  assumes "\<And>a b. same_but_events (f a b) (f' a b)"
  shows "same_but_events (case p of (a, b) \<Rightarrow> f a b) (case p of (a, b) \<Rightarrow> f' a b)"
  using assms by (cases p) simp

lemmas same_intros = same_bind same_try same_return same_notify same_model same_search same_strip
  same_loads same_lift same_complete same_case_prod

lemma same_generate_query:
  "quiet notify \<Longrightarrow> same_but_events (generate_query env notify state) (generate_query env None state)"
  unfolding generate_query_def Let_def by (intro same_intros)

lemma same_web_research:
  "quiet notify \<Longrightarrow> same_but_events (web_research env notify state) (web_research env None state)"
  unfolding web_research_def Let_def by (intro same_intros)

lemma same_summarize_sources:
  "quiet notify \<Longrightarrow>
   same_but_events (summarize_sources env notify state) (summarize_sources env None state)"
  unfolding summarize_sources_def Let_def by (intro same_intros)

lemma same_reflect_on_summary:
  "quiet notify \<Longrightarrow>
   same_but_events (reflect_on_summary env notify state) (reflect_on_summary env None state)"
  unfolding reflect_on_summary_def Let_def by (intro same_intros)

lemma same_finalize_summary:
  "quiet notify \<Longrightarrow> same_but_events (finalize_summary notify state) (finalize_summary None state)"
  unfolding finalize_summary_def Let_def by (intro same_intros)

lemma same_route_research:
  "quiet notify \<Longrightarrow> same_but_events (route_research notify state) (route_research None state)"
  unfolding route_research_def by (auto intro!: same_intros)

lemma same_step:
  assumes "quiet notify"
  shows "same_but_events (step env notify c) (step env None c)"
proof -
  obtain n state where c: "c = (n, state)" by (cases c)
  note stages = same_generate_query[OF assms] same_web_research[OF assms]
    same_summarize_sources[OF assms] same_reflect_on_summary[OF assms]
    same_finalize_summary[OF assms] same_route_research[OF assms]
  show ?thesis unfolding c
    by (cases n) (simp_all, (intro same_intros stages)+)
qed

lemma same_run_graph_aux:
  "quiet notify \<Longrightarrow> no_events w = no_events w' \<Longrightarrow>
   silent (run_graph env notify c w) = silent (run_graph env None c w')"
proof (induction env notify c w arbitrary: w' rule: run_graph.induct)
  case (1 env notify c w)
  show ?case
  proof (cases "fst c = EndNode")
    case True
    with "1.prems"(2) show ?thesis by (simp add: run_graph.simps)
  next
    case False
    from same_step[OF "1.prems"(1), of env c] "1.prems"(2)
    have s: "silent (step env notify c w) = silent (step env None c w')"
      unfolding same_but_events_def by blast
    show ?thesis
    proof (cases "step env notify c w")
      case (Return c1 w1)
      with s obtain w1' where r: "step env None c w' = Return c1 w1'"
        and e1: "no_events w1 = no_events w1'"
        by (cases "step env None c w'") auto
      from "1.IH"[OF False Return "1.prems"(1) e1] False Return r show ?thesis
        by (simp add: run_graph.simps[of env notify c w] run_graph.simps[of env None c w'])
    next
      case (Raise x w1)
      with s obtain w1' where r: "step env None c w' = Raise x w1'"
        and e1: "no_events w1 = no_events w1'"
        by (cases "step env None c w'") auto
      with False Raise show ?thesis
        by (simp add: run_graph.simps[of env notify c w] run_graph.simps[of env None c w'])
    next
      case Hang
      with s have "step env None c w' = Hang" by (cases "step env None c w'") auto
      with False Hang show ?thesis
        by (simp add: run_graph.simps[of env notify c w] run_graph.simps[of env None c w'])
    qed
  qed
qed

lemma same_run_graph:
  assumes "quiet notify"
  shows "same_but_events (run_graph env notify c) (run_graph env None c)"
  unfolding same_but_events_def using same_run_graph_aux[OF assms] by blast

lemma same_run_deep_research:
  assumes "quiet notify"
  shows "same_but_events (run_deep_research env notify topic) (run_deep_research env None topic)"
  unfolding run_deep_research_def
  by (intro same_bind same_return same_run_graph[OF assms])

lemma prefix_or_strict:
  assumes "prefix l zs" and "prefix ys zs"
  shows "prefix l ys \<or> strict_prefix ys l"
  using prefix_same_cases[OF assms] by (auto simp: strict_prefix_def)

lemma settled_same: "events w' = events w \<Longrightarrow> settled f w w'"
  by (auto simp: settled_def strict_prefix_def dest: prefix_order.antisym)

lemma settled_aborted: "settled f w w' \<Longrightarrow> aborted f e w w'"
  unfolding settled_def aborted_def by blast

lemma settled_trans:
  assumes "settled f w w1" and "settled f w1 w2"
  shows "settled f w w2"
  unfolding settled_def
proof (intro conjI allI impI)
  from assms show "prefix (events w) (events w2)"
    unfolding settled_def by (meson prefix_order.order_trans)
next
  fix l assume l: "strict_prefix (events w) l \<and> prefix l (events w2)"
  from assms(2) have "prefix (events w1) (events w2)" by (simp add: settled_def)
  from prefix_or_strict[OF conjunct2[OF l] this]
  show "f l = None \<or> fst (last l) = ''reflection''"
  proof
    assume "prefix l (events w1)"
    with l assms(1) show ?thesis unfolding settled_def by blast
  next
    assume "strict_prefix (events w1) l"
    with l assms(2) show ?thesis unfolding settled_def by blast
  qed
qed

lemma settled_then_aborted:
  assumes "settled f w w1" and "aborted f e w1 w2"
  shows "aborted f e w w2"
  unfolding aborted_def
proof (intro conjI allI impI)
  from assms show "prefix (events w) (events w2)"
    unfolding settled_def aborted_def by (meson prefix_order.order_trans)
next
  fix l assume l: "strict_prefix (events w) l \<and> prefix l (events w2)"
  from assms(2) have "prefix (events w1) (events w2)" by (simp add: aborted_def)
  from prefix_or_strict[OF conjunct2[OF l] this]
  show "f l = None \<or> fst (last l) = ''reflection'' \<or> (l = events w2 \<and> f l = Some e)"
  proof
    assume "prefix l (events w1)"
    with l assms(1) show ?thesis unfolding settled_def by blast
  next
    assume "strict_prefix (events w1) l"
    with l assms(2) show ?thesis unfolding aborted_def by blast
  qed
qed

lemma unswallowed_bind:
  assumes "unswallowed f m" and "\<And>a. unswallowed f (k a)"
  shows "unswallowed f (bind_io m k)"
  unfolding unswallowed_def
proof
  fix w
  from assms(1) have m: "case m w of Return a w' \<Rightarrow> settled f w w'
      | Raise e w' \<Rightarrow> aborted f e w w' | Hang \<Rightarrow> True"
    by (simp add: unswallowed_def)
  show "case bind_io m k w of Return a w' \<Rightarrow> settled f w w'
      | Raise e w' \<Rightarrow> aborted f e w w' | Hang \<Rightarrow> True"
  proof (cases "m w")
    case (Return a w1)
    with m have s: "settled f w w1" by simp
    from assms(2)[of a] have k: "case k a w1 of Return b w' \<Rightarrow> settled f w1 w'
      | Raise e w' \<Rightarrow> aborted f e w1 w' | Hang \<Rightarrow> True"
      by (simp add: unswallowed_def)
    show ?thesis
    proof (cases "k a w1")
      case (Return b w2)
      with k have "settled f w1 w2" by simp
      with s have "settled f w w2" by (rule settled_trans)
      with Return \<open>m w = Return a w1\<close> show ?thesis by (simp add: bind_io_def)
    next
      case (Raise e w2)
      with k have "aborted f e w1 w2" by simp
      with s have "aborted f e w w2" by (rule settled_then_aborted)
      with Raise \<open>m w = Return a w1\<close> show ?thesis by (simp add: bind_io_def)
    next
      case Hang
      with \<open>m w = Return a w1\<close> show ?thesis by (simp add: bind_io_def)
    qed
  next
    case (Raise e w1)
    with m show ?thesis by (simp add: bind_io_def)
  next
    case Hang
    then show ?thesis by (simp add: bind_io_def)
  qed
qed

lemma only_reflection_bind:
  assumes "only_reflection f m" and "\<And>a. only_reflection f (k a)"
  shows "only_reflection f (bind_io m k)"
  unfolding only_reflection_def
proof
  fix w
  from assms(1) have m: "case m w of Return a w' \<Rightarrow> settled f w w'
      | Raise e w' \<Rightarrow> settled f w w' | Hang \<Rightarrow> True"
    by (simp add: only_reflection_def)
  show "case bind_io m k w of Return a w' \<Rightarrow> settled f w w'
      | Raise e w' \<Rightarrow> settled f w w' | Hang \<Rightarrow> True"
  proof (cases "m w")
    case (Return a w1)
    with m have s: "settled f w w1" by simp
    from assms(2)[of a] have k: "case k a w1 of Return b w' \<Rightarrow> settled f w1 w'
      | Raise e w' \<Rightarrow> settled f w1 w' | Hang \<Rightarrow> True"
      by (simp add: only_reflection_def)
    show ?thesis
    proof (cases "k a w1")
      case (Return b w2)
      with k have "settled f w1 w2" by simp
      with s have "settled f w w2" by (rule settled_trans)
      with Return \<open>m w = Return a w1\<close> show ?thesis by (simp add: bind_io_def)
    next
      case (Raise e w2)
      with k have "settled f w1 w2" by simp
      with s have "settled f w w2" by (rule settled_trans)
      with Raise \<open>m w = Return a w1\<close> show ?thesis by (simp add: bind_io_def)
    next
      case Hang
      with \<open>m w = Return a w1\<close> show ?thesis by (simp add: bind_io_def)
    qed
  next
    case (Raise e w1)
    with m show ?thesis by (simp add: bind_io_def)
  next
    case Hang
    then show ?thesis by (simp add: bind_io_def)
  qed
qed

lemma unswallowed_try:
  assumes "only_reflection f m" and "unswallowed f h"
  shows "unswallowed f (try_except m h)"
  unfolding unswallowed_def
proof
  fix w
  from assms(1) have m: "case m w of Return a w' \<Rightarrow> settled f w w'
      | Raise e w' \<Rightarrow> settled f w w' | Hang \<Rightarrow> True"
    by (simp add: only_reflection_def)
  show "case try_except m h w of Return a w' \<Rightarrow> settled f w w'
      | Raise e w' \<Rightarrow> aborted f e w w' | Hang \<Rightarrow> True"
  proof (cases "m w")
    case (Return a w1)
    with m show ?thesis by (simp add: try_except_def)
  next
    case (Raise e w1)
    with m have s: "settled f w w1" by simp
    show ?thesis
    proof (cases "is_Exception e")
      case False
      with Raise settled_aborted[OF s] show ?thesis by (simp add: try_except_def)
    next
      case True
      from assms(2) have h: "case h w1 of Return b w' \<Rightarrow> settled f w1 w'
        | Raise e w' \<Rightarrow> aborted f e w1 w' | Hang \<Rightarrow> True"
        by (simp add: unswallowed_def)
      show ?thesis
      proof (cases "h w1")
        case (Return b w2)
        with h have "settled f w1 w2" by simp
        with s have "settled f w w2" by (rule settled_trans)
        with Return True \<open>m w = Raise e w1\<close> show ?thesis by (simp add: try_except_def)
      next
        case (Raise e2 w2)
        with h have "aborted f e2 w1 w2" by simp
        with s have "aborted f e2 w w2" by (rule settled_then_aborted)
        with Raise True \<open>m w = Raise e w1\<close> show ?thesis by (simp add: try_except_def)
      next
        case Hang
        with True \<open>m w = Raise e w1\<close> show ?thesis by (simp add: try_except_def)
      qed
    qed
  next
    case Hang
    then show ?thesis by (simp add: try_except_def)
  qed
qed

lemma only_reflection_unswallowed: "only_reflection f m \<Longrightarrow> unswallowed f m"
  unfolding only_reflection_def unswallowed_def
  by (auto split: outcome.splits intro: settled_aborted)

lemma only_reflection_return: "only_reflection f (return_io a)"
  by (simp add: only_reflection_def return_io_def settled_same)

lemma only_reflection_model: "only_reflection f (call_model env messages)"
  by (auto simp: only_reflection_def call_model_def lift_io_def settled_same split: sum.splits)

lemma only_reflection_search: "only_reflection f (call_search env query)"
  by (auto simp: only_reflection_def call_search_def lift_io_def settled_same split: sum.splits)

lemma only_reflection_strip: "only_reflection f (strip_io content)"
  by (auto simp: only_reflection_def strip_io_def settled_same split: option.splits)

lemma only_reflection_loads: "only_reflection f (loads_io env t)"
  by (auto simp: only_reflection_def loads_io_def settled_same split: option.splits)

lemma only_reflection_lift: "only_reflection f (lift_io r)"
  by (auto simp: only_reflection_def lift_io_def settled_same split: sum.splits)

lemma only_reflection_complete: "only_reflection f (complete_node n state u)"
  by (simp add: only_reflection_def complete_node_def settled_same)

lemma strict_prefix_snoc_eq:
  assumes "strict_prefix xs l" and "prefix l (xs @ [x])"
  shows "l = xs @ [x]"
  using assms by (auto simp: strict_prefix_def)

lemma only_reflection_notify:
  "only_reflection f (call_notify (Some f) ''reflection'' payload)"
  unfolding only_reflection_def
proof
  fix w
  have "settled f w (w\<lparr>events := events w @ [(''reflection'', payload)]\<rparr>)"
    unfolding settled_def by (auto dest: strict_prefix_snoc_eq)
  then show "case call_notify (Some f) ''reflection'' payload w of
        Return a w' \<Rightarrow> settled f w w' | Raise e w' \<Rightarrow> settled f w w' | Hang \<Rightarrow> True"
    by (simp add: call_notify_def Let_def split: option.splits)
qed

lemma unswallowed_notify: "unswallowed f (call_notify (Some f) name payload)"
  unfolding unswallowed_def
proof
  fix w
  show "case call_notify (Some f) name payload w of
        Return a w' \<Rightarrow> settled f w w' | Raise e w' \<Rightarrow> aborted f e w w' | Hang \<Rightarrow> True"
  proof (cases "f (events w @ [(name, payload)])")
    case None
    then have "settled f w (w\<lparr>events := events w @ [(name, payload)]\<rparr>)"
      unfolding settled_def by (auto dest: strict_prefix_snoc_eq)
    with None show ?thesis by (simp add: call_notify_def Let_def)
  next
    case (Some e)
    then have "aborted f e w (w\<lparr>events := events w @ [(name, payload)]\<rparr>)"
      unfolding aborted_def by (auto dest: strict_prefix_snoc_eq)
    with Some show ?thesis by (simp add: call_notify_def Let_def)
  qed
qed

lemma unswallowed_case_prod:
  assumes "\<And>a b. unswallowed f (k a b)"
  shows "unswallowed f (case p of (a, b) \<Rightarrow> k a b)"
  using assms by (cases p) simp

lemmas only_reflection_intros = only_reflection_bind only_reflection_return
  only_reflection_loads only_reflection_lift only_reflection_notify

lemmas unswallowed_intros = unswallowed_bind unswallowed_case_prod unswallowed_notify
  only_reflection_unswallowed[OF only_reflection_return]
  only_reflection_unswallowed[OF only_reflection_model]
  only_reflection_unswallowed[OF only_reflection_search]
  only_reflection_unswallowed[OF only_reflection_strip]
  only_reflection_unswallowed[OF only_reflection_loads]
  only_reflection_unswallowed[OF only_reflection_lift]
  only_reflection_unswallowed[OF only_reflection_complete]

lemma unswallowed_generate_query: "unswallowed f (generate_query env (Some f) state)"
  unfolding generate_query_def Let_def by (intro unswallowed_intros)

lemma unswallowed_web_research: "unswallowed f (web_research env (Some f) state)"
  unfolding web_research_def Let_def by (intro unswallowed_intros)

lemma unswallowed_summarize_sources: "unswallowed f (summarize_sources env (Some f) state)"
  unfolding summarize_sources_def Let_def by (intro unswallowed_intros)

lemma unswallowed_reflect_on_summary: "unswallowed f (reflect_on_summary env (Some f) state)"
  unfolding reflect_on_summary_def Let_def
  by (intro unswallowed_intros unswallowed_try only_reflection_intros)

lemma unswallowed_finalize_summary: "unswallowed f (finalize_summary (Some f) state)"
  unfolding finalize_summary_def Let_def by (intro unswallowed_intros)

lemma unswallowed_route_research: "unswallowed f (route_research (Some f) state)"
  unfolding route_research_def by (auto intro!: unswallowed_intros)

lemma unswallowed_step: "unswallowed f (step env (Some f) c)"
proof -
  obtain n state where c: "c = (n, state)" by (cases c)
  note stages = unswallowed_generate_query unswallowed_web_research
    unswallowed_summarize_sources unswallowed_reflect_on_summary
    unswallowed_finalize_summary unswallowed_route_research
  show ?thesis unfolding c
    by (cases n) (simp_all, (intro unswallowed_intros stages)+)
qed

lemma unswallowed_run_graph_aux:
  "case run_graph env notify c w of
     Return a w' \<Rightarrow> notify = Some f \<longrightarrow> settled f w w'
   | Raise e w' \<Rightarrow> notify = Some f \<longrightarrow> aborted f e w w'
   | Hang \<Rightarrow> True"
proof (induction env notify c w rule: run_graph.induct)
  case (1 env notify c w)
  show ?case
  proof (cases "fst c = EndNode")
    case True
    then show ?thesis by (simp add: run_graph.simps settled_same)
  next
    case False
    show ?thesis
    proof (cases "step env notify c w")
      case (Return c1 w1)
      note IH = "1.IH"[OF False Return]
      have r: "run_graph env notify c w = run_graph env notify c1 w1"
        using False Return by (simp add: run_graph.simps[of env notify c w])
      show ?thesis
      proof (cases "notify = Some f")
        case False
        then show ?thesis by (simp split: outcome.splits)
      next
        case True
        have "case step env (Some f) c w of Return a w' \<Rightarrow> settled f w w'
          | Raise e w' \<Rightarrow> aborted f e w w' | Hang \<Rightarrow> True"
          using unswallowed_step[of f env c] by (simp add: unswallowed_def)
        with Return True have s: "settled f w w1" by simp
        show ?thesis unfolding r using IH True s
          by (auto split: outcome.splits intro: settled_trans settled_then_aborted)
      qed
    next
      case (Raise e w1)
      have r: "run_graph env notify c w = Raise e w1"
        using False Raise by (simp add: run_graph.simps[of env notify c w])
      show ?thesis
      proof (cases "notify = Some f")
        case False
        then show ?thesis by (simp split: outcome.splits)
      next
        case True
        have "case step env (Some f) c w of Return a w' \<Rightarrow> settled f w w'
          | Raise e w' \<Rightarrow> aborted f e w w' | Hang \<Rightarrow> True"
          using unswallowed_step[of f env c] by (simp add: unswallowed_def)
        with Raise True have "aborted f e w w1" by simp
        with r show ?thesis by simp
      qed
    next
      case Hang
      with False show ?thesis by (simp add: run_graph.simps[of env notify c w])
    qed
  qed
qed

lemma unswallowed_run_graph: "unswallowed f (run_graph env (Some f) c)"
  unfolding unswallowed_def
proof
  fix w
  show "case run_graph env (Some f) c w of Return a w' \<Rightarrow> settled f w w'
      | Raise e w' \<Rightarrow> aborted f e w w' | Hang \<Rightarrow> True"
    using unswallowed_run_graph_aux[where env = env and notify = "Some f" and c = c
        and f = f and w = w]
    by (cases "run_graph env (Some f) c w") simp_all
qed

lemma unswallowed_run_deep_research: "unswallowed f (run_deep_research env (Some f) topic)"
  unfolding run_deep_research_def
  by (intro unswallowed_intros unswallowed_run_graph)

text \<open>
  The one handler of the pipeline, the \<open>except Exception\<close> of \<open>reflect_on_summary\<close>,
  encloses a notifier call: what the callback raises on the \<open>reflection\<close> event sent from
  the \<open>try\<close> block is caught like a parse error, and the stage sends the event of the
  \<open>except\<close> branch and returns the templated query. This is why the statements on raising
  callbacks leave the \<open>reflection\<close> events aside.
\<close>

lemma reflection_notifier_caught:
  "reflect_on_summary stub_env (Some stub_reflection_notifier) stub_reflect_state
       (initial_world\<lparr>llm_calls := 2\<rparr>)
     = Return
         (no_update\<lparr>upd_search_query := Some (PStr ''Tell me more about remote work'')\<rparr>)
         (initial_world\<lparr>llm_calls := 3,
            events :=
              [(''thinking'', [(''thoughts'', PStr [])]),
               (''reflection'',
                [(''query'', PStr ''remote work studies''), (''knowledge_gap'', PStr ''no data'')]),
               (''reflection'',
                [(''query'', PStr ''Tell me more about remote work''),
                 (''knowledge_gap'', PStr ''Unable to identify specific knowledge gap'')])]\<rparr>)"
  by code_simp

text \<open>
  C4 (a notifier that raises does not abort the run), refuted: the orchestrator catches
  nothing. With a notifier that raises on every call, the stub run, which returns a
  report without a notifier, ends in the notifier's exception at the first \<open>thinking\<close>
  event, before any node has completed.
\<close>

theorem raising_notifier_aborts:
  "run_deep_research stub_env None ''remote work'' initial_world
     = Return (running_summary stub_final_state) stub_final_world
   \<and> run_deep_research stub_env (Some (\<lambda>calls. Some (Failure ''notifier down''))) ''remote work''
       initial_world
     = Raise (Failure ''notifier down'')
         \<lparr>llm_calls = 1, search_calls = 0,
          events = [(''thinking'', [(''thoughts'', PStr [])])], visited = []\<rparr>"
  by code_simp

text \<open>
  C4, amended, for a notifier that leaves its payload as it is. A notifier that returns
  from every call does not change the run: every step of the graph and the whole run
  return the same value or raise the same exception, after the same model and search
  calls and the same completed nodes, as without a notifier. A notifier call that raises
  on an event other than \<open>reflection\<close> is not swallowed: of the notifier calls made by a
  step that ends, and by a run that ends, each one returned, or is a \<open>reflection\<close> event,
  or is the last call made, and then the step and the run end by raising what that call
  raised; a run that returns a report has made no such raising call. In particular a
  notifier that raises on the first \<open>thinking\<close> event ends the run with its exception
  after one model call.
\<close>

theorem quiet_notifier_transparent:
  "(quiet notify \<longrightarrow>
      silent (run_deep_research env notify topic initial_world)
        = silent (run_deep_research env None topic initial_world))
   \<and> (quiet notify \<longrightarrow> silent (step env notify c w) = silent (step env None c w))
   \<and> (step env (Some f) c w = Return c' w' \<longrightarrow> settled f w w')
   \<and> (step env (Some f) c w = Raise e w' \<longrightarrow> aborted f e w w')
   \<and> (run_deep_research env (Some f) topic initial_world = Return report w' \<longrightarrow>
        (\<forall>l. l \<noteq> [] \<and> prefix l (events w') \<longrightarrow>
             f l = None \<or> fst (last l) = ''reflection''))
   \<and> (run_deep_research env (Some f) topic initial_world = Raise e w' \<longrightarrow>
        (\<forall>l. l \<noteq> [] \<and> prefix l (events w') \<longrightarrow>
             f l = None \<or> fst (last l) = ''reflection'' \<or> (l = events w' \<and> f l = Some e)))
   \<and> (invoke env 0 (query_messages env (initial_state topic)) = Inr content \<longrightarrow>
      strip_thinking_tokens content = Some (th, tx) \<longrightarrow>
      f [(''thinking'', [(''thoughts'', PStr th)])] = Some e \<longrightarrow>
        run_deep_research env (Some f) topic initial_world =
          Raise e (initial_world\<lparr>llm_calls := 1,
                     events := [(''thinking'', [(''thoughts'', PStr th)])]\<rparr>))"
proof (intro conjI impI)
  assume q: "quiet notify"
  from same_run_deep_research[OF q, of env topic]
  show "silent (run_deep_research env notify topic initial_world)
        = silent (run_deep_research env None topic initial_world)"
    unfolding same_but_events_def by blast
  from same_step[OF q, of env c]
  show "silent (step env notify c w) = silent (step env None c w)"
    unfolding same_but_events_def by blast
next
  assume r: "step env (Some f) c w = Return c' w'"
  have "case step env (Some f) c w of Return a w1 \<Rightarrow> settled f w w1
      | Raise x w1 \<Rightarrow> aborted f x w w1 | Hang \<Rightarrow> True"
    using unswallowed_step[of f env c] by (simp add: unswallowed_def)
  with r show "settled f w w'" by simp
next
  assume r: "step env (Some f) c w = Raise e w'"
  have "case step env (Some f) c w of Return a w1 \<Rightarrow> settled f w w1
      | Raise x w1 \<Rightarrow> aborted f x w w1 | Hang \<Rightarrow> True"
    using unswallowed_step[of f env c] by (simp add: unswallowed_def)
  with r show "aborted f e w w'" by simp
next
  assume r: "run_deep_research env (Some f) topic initial_world = Return report w'"
  have "case run_deep_research env (Some f) topic initial_world of
        Return a w1 \<Rightarrow> settled f initial_world w1
      | Raise x w1 \<Rightarrow> aborted f x initial_world w1 | Hang \<Rightarrow> True"
    using unswallowed_run_deep_research[of f env topic] by (simp add: unswallowed_def)
  with r have "settled f initial_world w'" by simp
  then show "\<forall>l. l \<noteq> [] \<and> prefix l (events w') \<longrightarrow>
             f l = None \<or> fst (last l) = ''reflection''"
    by (auto simp: settled_def initial_world_def strict_prefix_def)
next
  assume r: "run_deep_research env (Some f) topic initial_world = Raise e w'"
  have "case run_deep_research env (Some f) topic initial_world of
        Return a w1 \<Rightarrow> settled f initial_world w1
      | Raise x w1 \<Rightarrow> aborted f x initial_world w1 | Hang \<Rightarrow> True"
    using unswallowed_run_deep_research[of f env topic] by (simp add: unswallowed_def)
  with r have "aborted f e initial_world w'" by simp
  then show "\<forall>l. l \<noteq> [] \<and> prefix l (events w') \<longrightarrow>
             f l = None \<or> fst (last l) = ''reflection'' \<or> (l = events w' \<and> f l = Some e)"
    by (auto simp: aborted_def initial_world_def strict_prefix_def)
next
  assume i: "invoke env 0 (query_messages env (initial_state topic)) = Inr content"
    and s: "strip_thinking_tokens content = Some (th, tx)"
    and f: "f [(''thinking'', [(''thoughts'', PStr th)])] = Some e"
  have "generate_query env (Some f) (initial_state topic) initial_world =
          Raise e (initial_world\<lparr>llm_calls := 1,
                     events := [(''thinking'', [(''thoughts'', PStr th)])]\<rparr>)"
    by (simp add: generate_query_def io_defs i s f call_notify_def initial_world_def)
  then show "run_deep_research env (Some f) topic initial_world =
          Raise e (initial_world\<lparr>llm_calls := 1,
                     events := [(''thinking'', [(''thoughts'', PStr th)])]\<rparr>)"
    by (simp add: run_deep_research_def run_graph.simps bind_io_def)
qed

theorem quiet_notifier_transparent_witness:
  "quiet (Some (\<lambda>calls. None))
   \<and> silent (run_deep_research stub_env (Some (\<lambda>calls. None)) ''remote work'' initial_world)
       = Return (running_summary stub_final_state) stub_final_world
   \<and> silent (step stub_env (Some (\<lambda>calls. None)) (WebResearchNode, initial_state ''remote work'')
               initial_world)
       = Return (SummarizeSourcesNode, stub_round_state) stub_round_world
   \<and> invoke stub_env 0 (query_messages stub_env (initial_state ''remote work''))
       = Inr stub_query_json
   \<and> strip_thinking_tokens stub_query_json = Some ([], stub_query_json)
   \<and> run_deep_research stub_env (Some (\<lambda>calls. Some (Failure ''notifier down''))) ''remote work''
       initial_world
     = Raise (Failure ''notifier down'')
         (initial_world\<lparr>llm_calls := 1, events := [(''thinking'', [(''thoughts'', PStr [])])]\<rparr>)
   \<and> run_deep_research stub_env (Some stub_web_notifier) ''remote work'' initial_world
     = Raise (Failure ''notifier down'') stub_abort_world
   \<and> stub_web_notifier (take 1 (events stub_abort_world)) = None
   \<and> stub_web_notifier (take 2 (events stub_abort_world)) = None
   \<and> fst (last (events stub_abort_world)) = ''web_research''
   \<and> stub_web_notifier (events stub_abort_world) = Some (Failure ''notifier down'')
   \<and> step stub_env (Some stub_web_notifier) (WebResearchNode, initial_state ''remote work'')
       initial_world
     = Raise (Failure ''notifier down'')
         (initial_world\<lparr>search_calls := 1, events := [last (events stub_abort_world)]\<rparr>)
   \<and> aborted stub_web_notifier (Failure ''notifier down'') initial_world
       (initial_world\<lparr>search_calls := 1, events := [last (events stub_abort_world)]\<rparr>)"
proof -
  have q: "quiet (Some (\<lambda>calls. None))" by (simp add: quiet_def)
  have r: "run_deep_research stub_env None ''remote work'' initial_world
             = Return (running_summary stub_final_state) stub_final_world"
    by (simp add: run_deep_research_def bind_io_def stub_graph_run return_io_def)
  have n: "no_events stub_final_world = stub_final_world"
    "no_events stub_round_world = stub_round_world"
    by (simp_all add: no_events_def stub_final_world_def stub_round_world_def)
  have j0: "invoke stub_env 0 (query_messages stub_env (initial_state ''remote work''))
             = Inr stub_query_json"
    by (simp add: stub_env_def)
  have t: "strip_thinking_tokens stub_query_json = Some ([], stub_query_json)"
    by code_simp
  have x: "run_deep_research stub_env (Some stub_web_notifier) ''remote work'' initial_world
     = Raise (Failure ''notifier down'') stub_abort_world"
    by code_simp
  have y: "step stub_env (Some stub_web_notifier) (WebResearchNode, initial_state ''remote work'')
       initial_world
     = Raise (Failure ''notifier down'')
         (initial_world\<lparr>search_calls := 1, events := [last (events stub_abort_world)]\<rparr>)"
    by code_simp
  have z: "stub_web_notifier (take 1 (events stub_abort_world)) = None"
    "stub_web_notifier (take 2 (events stub_abort_world)) = None"
    "fst (last (events stub_abort_world)) = ''web_research''"
    by code_simp+
  have l: "events stub_abort_world \<noteq> [] \<and> prefix (events stub_abort_world) (events stub_abort_world)"
    by (simp add: stub_abort_world_def)
  have m: "stub_web_notifier (events stub_abort_world) \<noteq> None"
    by (simp add: stub_abort_world_def stub_web_notifier_def)
  note a = quiet_notifier_transparent[where notify = "Some (\<lambda>calls. None)" and env = stub_env
      and topic = "''remote work''" and c = "(WebResearchNode, initial_state ''remote work'')"
      and w = initial_world and f = "\<lambda>calls. Some (Failure ''notifier down'')"]
  note b = quiet_notifier_transparent[where env = stub_env and topic = "''remote work''"
      and c = "(WebResearchNode, initial_state ''remote work'')" and w = initial_world
      and f = stub_web_notifier]
  have 1: "silent (run_deep_research stub_env (Some (\<lambda>calls. None)) ''remote work'' initial_world)
       = Return (running_summary stub_final_state) stub_final_world"
    using a[THEN conjunct1, rule_format, OF q] by (simp add: r n)
  have 2: "silent (step stub_env (Some (\<lambda>calls. None))
               (WebResearchNode, initial_state ''remote work'') initial_world)
       = Return (SummarizeSourcesNode, stub_round_state) stub_round_world"
    using a[THEN conjunct2, THEN conjunct1, rule_format, OF q]
    by (simp only: stub_web_step silent.simps n)
  have 3: "run_deep_research stub_env (Some (\<lambda>calls. Some (Failure ''notifier down'')))
       ''remote work'' initial_world
     = Raise (Failure ''notifier down'')
         (initial_world\<lparr>llm_calls := 1, events := [(''thinking'', [(''thoughts'', PStr [])])]\<rparr>)"
    by (rule a[THEN conjunct2, THEN conjunct2, THEN conjunct2, THEN conjunct2, THEN conjunct2,
          THEN conjunct2, rule_format, OF j0 t]) simp
  have 4: "stub_web_notifier (events stub_abort_world) = Some (Failure ''notifier down'')"
    using b[THEN conjunct2, THEN conjunct2, THEN conjunct2, THEN conjunct2, THEN conjunct2,
        THEN conjunct1, rule_format, OF x l] m z(3)
    by auto
  have 5: "aborted stub_web_notifier (Failure ''notifier down'') initial_world
       (initial_world\<lparr>search_calls := 1, events := [last (events stub_abort_world)]\<rparr>)"
    by (rule b[THEN conjunct2, THEN conjunct2, THEN conjunct2, THEN conjunct1, rule_format, OF y])
  from q 1 2 j0 t 3 x z 4 y 5 show ?thesis by blast
qed

section \<open>Normalising the math delimiters\<close>

lemma sub_pair_no_match: "\<not> has_pair b1 b2 t \<Longrightarrow> sub_pair b1 b2 d t = t"
  by (subst sub_pair.simps) (simp add: has_pair_def split: option.splits)

lemma normalize_segment_no_match:
  "\<not> has_pair CHR ''['' CHR '']'' seg \<Longrightarrow> \<not> has_pair CHR ''('' CHR '')'' seg \<Longrightarrow>
   normalize_segment seg = seg"
  by (simp add: normalize_segment_def sub_pair_no_match)

lemma concat_split_code: "concat (split_code t) = t"
proof (induction t rule: split_code.induct)
  case (1 t)
  show ?case
  proof (cases "str_find ''`'' t")
    case None
    then show ?thesis by (subst split_code.simps) simp
  next
    case (Some p)
    show ?thesis
    proof (cases "match_code (drop p t)")
      case None
      with Some show ?thesis by (subst split_code.simps) simp
    next
      case (Some n)
      from "1.IH"[OF \<open>str_find ''`'' t = Some p\<close> Some]
      have "concat (split_code (drop (p + n) t)) = drop (p + n) t" .
      moreover have "take p t @ take n (drop p t) @ drop (p + n) t = t"
        by (metis append_take_drop_id drop_drop add.commute)
      ultimately show ?thesis
        using Some \<open>str_find ''`'' t = Some p\<close> by (subst split_code.simps) simp
    qed
  qed
qed

lemma map_even_id: "list_all (\<lambda>x. f x = x) (evens xs) \<Longrightarrow> map_even f xs = xs"
  by (induction f xs rule: map_even.induct) simp_all

lemma list_all_mono': "list_all P xs \<Longrightarrow> (\<And>x. P x \<Longrightarrow> Q x) \<Longrightarrow> list_all Q xs"
  by (induction xs) auto

text \<open>
  C7 (normalising twice equals normalising once, for any text), refuted. The shortest
  match from the first \<open>\[\<close> ends at the first \<open>\]\<close>, so an opening delimiter inside the
  group and a closing one after the match survive the first pass, and form a pair for
  the second.
\<close>

theorem normalize_latex_twice_differs:
  "normalize_latex
     [backslash, CHR ''['', CHR ''a'', backslash, CHR ''['', CHR ''b'', backslash, CHR '']'',
      CHR ''c'', backslash, CHR '']'']
     = ''$$a'' @ [backslash, CHR ''[''] @ ''b$$c'' @ [backslash, CHR '']'']
   \<and> normalize_latex (''$$a'' @ [backslash, CHR ''[''] @ ''b$$c'' @ [backslash, CHR '']''])
     = ''$$a$$b$$c$$''
   \<and> normalize_latex (normalize_latex
         [backslash, CHR ''['', CHR ''a'', backslash, CHR ''['', CHR ''b'', backslash, CHR '']'',
          CHR ''c'', backslash, CHR '']''])
     \<noteq> normalize_latex
         [backslash, CHR ''['', CHR ''a'', backslash, CHR ''['', CHR ''b'', backslash, CHR '']'',
          CHR ''c'', backslash, CHR '']'']"
  by code_simp

text \<open>
  C7, amended. A text in target form (no \<open>\[...\]\<close> and no \<open>\(...\)\<close> pair outside the code
  spans) is returned unchanged; so normalising a second time changes nothing whenever the
  first pass has left the text in target form.
\<close>

theorem normalize_latex_target_form:
  "(target_form t \<longrightarrow> normalize_latex t = t)
   \<and> (target_form (normalize_latex t) \<longrightarrow>
        normalize_latex (normalize_latex t) = normalize_latex t)"
proof -
  have "normalize_latex s = s" if "target_form s" for s
  proof -
    from that have "list_all (\<lambda>seg. normalize_segment seg = seg) (evens (split_code s))"
      unfolding target_form_def
      by (rule list_all_mono') (simp add: normalize_segment_no_match)
    then show ?thesis
      by (simp add: normalize_latex_def map_even_id concat_split_code)
  qed
  then show ?thesis by blast
qed

theorem normalize_latex_target_form_witness:
  "target_form (''cost $x$, `'' @ [backslash, CHR ''(''] @ ''y'' @ [backslash, CHR '')''] @ ''` kept'')
   \<and> normalize_latex
        (''cost $x$, `'' @ [backslash, CHR ''(''] @ ''y'' @ [backslash, CHR '')''] @ ''` kept'')
       = ''cost $x$, `'' @ [backslash, CHR ''(''] @ ''y'' @ [backslash, CHR '')''] @ ''` kept''
   \<and> target_form (normalize_latex ([backslash, CHR ''(''] @ ''x'' @ [backslash, CHR '')'']))
   \<and> normalize_latex (normalize_latex ([backslash, CHR ''(''] @ ''x'' @ [backslash, CHR '')'']))
       = ''$x$''"
proof -
  have a: "target_form
      (''cost $x$, `'' @ [backslash, CHR ''(''] @ ''y'' @ [backslash, CHR '')''] @ ''` kept'')"
    by code_simp
  have b: "target_form (normalize_latex ([backslash, CHR ''(''] @ ''x'' @ [backslash, CHR '')'']))"
    by code_simp
  have c: "normalize_latex ([backslash, CHR ''(''] @ ''x'' @ [backslash, CHR '')'']) = ''$x$''"
    by code_simp
  from normalize_latex_target_form[THEN conjunct1, rule_format, OF a]
    normalize_latex_target_form[THEN conjunct2, rule_format, OF b] a b c
  show ?thesis by simp
qed

section \<open>Stripping the thinking markers\<close>

text \<open>
  Both markers start with \<open><\<close> and have no other \<open><\<close>, so an occurrence of a marker
  cannot overlap the start of another: the first occurrence of a marker in
  \<open>a @ marker @ b\<close> is at \<open>length a\<close> when \<open>a\<close> holds none.
\<close>

lemma str_find_sublist: "str_find m t \<noteq> None \<longleftrightarrow> sublist m t"
  by (induction t) (auto simp: sublist_Cons_right)

lemma contains_sublist: "contains m t \<longleftrightarrow> sublist m t"
  unfolding contains_def by (rule str_find_sublist)

lemma prefix_marker_overlap:
  assumes "prefix (c # m') (a @ (c # m') @ b)" and "c \<notin> set m'"
  shows "a = [] \<or> sublist (c # m') a"
proof (cases a)
  case Nil
  then show ?thesis by simp
next
  case (Cons x a')
  from assms(1) have "prefix (c # m') a \<or> (\<exists>us. c # m' = a @ us \<and> prefix us ((c # m') @ b))"
    by (simp only: prefix_append)
  then show ?thesis
  proof
    assume "prefix (c # m') a"
    then show ?thesis by (simp add: prefix_imp_sublist)
  next
    assume "\<exists>us. c # m' = a @ us \<and> prefix us ((c # m') @ b)"
    then obtain us where u: "c # m' = a @ us" and p: "prefix us ((c # m') @ b)" by blast
    show ?thesis
    proof (cases us)
      case Nil
      with u show ?thesis by simp
    next
      case (Cons y us')
      with p have "y = c" by simp
      with u Cons \<open>a = x # a'\<close> have "c \<in> set m'" by auto
      with assms(2) show ?thesis by simp
    qed
  qed
qed

lemma str_find_first:
  assumes "c \<notin> set m'" and "\<not> sublist (c # m') a"
  shows "str_find (c # m') (a @ (c # m') @ b) = Some (length a)"
  using assms(2)
proof (induction a)
  case Nil
  show ?case by simp
next
  case (Cons x a)
  from Cons.prems have n: "\<not> sublist (c # m') a"
    by (auto simp: sublist_Cons_right)
  from prefix_marker_overlap[OF _ assms(1), of "x # a" b] Cons.prems
  have "\<not> prefix (c # m') ((x # a) @ (c # m') @ b)" by blast
  with Cons.IH[OF n] show ?case by simp
qed

lemma no_sublist_before_marker:
  assumes "c \<notin> set m'" and "\<not> sublist (c # m') x" and "\<not> sublist (c # m') (c # y)"
  shows "\<not> sublist (c # m') (x @ c # y)"
proof
  assume "sublist (c # m') (x @ c # y)"
  with assms(2,3) obtain xs1 xs2 where m: "c # m' = xs1 @ xs2"
    and s: "suffix xs1 x" and p: "prefix xs2 (c # y)"
    by (auto simp: sublist_append)
  show False
  proof (cases xs1)
    case Nil
    with m p assms(3) show False by (simp add: prefix_imp_sublist)
  next
    case (Cons a xs1')
    show False
    proof (cases xs2)
      case Nil
      with m s assms(2) show False by (simp add: suffix_imp_sublist)
    next
      case (Cons b xs2')
      with p have "b = c" by simp
      with m Cons \<open>xs1 = a # xs1'\<close> have "c \<in> set m'" by auto
      with assms(1) show False by simp
    qed
  qed
qed

lemma think_open_Cons: "think_open = CHR ''<'' # ''think>''"
  by (simp add: think_open_def)

lemma think_close_Cons: "think_close = CHR ''<'' # ''/think>''"
  by (simp add: think_close_def)

lemma no_close_in_open_inner:
  "\<not> sublist think_close inner \<Longrightarrow> \<not> sublist think_close (think_open @ inner)"
  by (simp add: think_open_def think_close_def sublist_Cons_right)

lemma find_open:
  assumes "\<not> sublist think_open p"
  shows "str_find think_open (p @ think_open @ rest) = Some (length p)"
  using str_find_first[of "CHR ''<''" "''think>''" p rest] assms
  by (simp add: think_open_def)

lemma find_close:
  assumes "\<not> sublist think_close p" and "\<not> sublist think_close inner"
  shows "str_find think_close (p @ think_open @ inner @ think_close @ rest)
           = Some (length p + 7 + length inner)"
proof -
  from no_close_in_open_inner[OF assms(2)]
  have "\<not> sublist (CHR ''<'' # ''/think>'') (CHR ''<'' # ''think>'' @ inner)"
    by (simp add: think_open_def think_close_def)
  with no_sublist_before_marker[of "CHR ''<''" "''/think>''" p "''think>'' @ inner"] assms(1)
  have "\<not> sublist (CHR ''<'' # ''/think>'') (p @ think_open @ inner)"
    by (simp add: think_open_def think_close_def)
  from str_find_first[OF _ this, of rest]
  show ?thesis by (simp add: think_open_def think_close_def)
qed

lemma strip_loop_step:
  assumes "\<not> sublist think_open p" and "\<not> sublist think_close p"
    and "\<not> sublist think_close inner"
  shows "strip_loop th (p @ think_open @ inner @ think_close @ rest)
           = strip_loop (th @ str_strip inner @ ''\<newline>\<newline>'') (p @ rest)"
proof -
  have lo: "length think_open = 7" and lc: "length think_close = 8"
    by (simp_all add: think_open_def think_close_def)
  note s = find_open[OF assms(1), of "inner @ think_close @ rest"]
  note e = find_close[OF assms(2,3), of rest]
  have 1: "slice (p @ think_open @ inner @ think_close @ rest) (length p + 7)
             (length p + 7 + length inner) = inner"
    by (simp add: slice_def lo)
  have 2: "drop (length p + 7 + length inner + 8) (p @ think_open @ inner @ think_close @ rest)
             = rest"
    by (simp add: lo lc)
  have 3: "take (length p) (p @ think_open @ inner @ think_close @ rest) = p"
    by simp
  show ?thesis
    by (subst strip_loop.simps) (simp only: s e option.case prod.case 1 2 3)
qed

lemma sublist_append_left: "\<not> sublist m (x @ y) \<Longrightarrow> \<not> sublist m x"
  by (auto simp: sublist_append)

lemma strip_loop_marked:
  assumes "list_all (\<lambda>pair. \<not> contains think_close (fst pair)) pairs"
    and "\<not> contains think_open (outer_text p pairs)"
    and "\<not> contains think_close (outer_text p pairs)"
  shows "strip_loop th (marked p pairs) = Some (th @ inner_thoughts pairs, outer_text p pairs)"
  using assms
proof (induction pairs arbitrary: th p)
  case Nil
  then have "str_find think_open p = None"
    by (simp add: outer_text_def contains_def)
  then show ?case
    by (subst strip_loop.simps) (simp add: marked_def outer_text_def inner_thoughts_def)
next
  case (Cons pair pairs)
  obtain inner outer where pair: "pair = (inner, outer)" by (cases pair)
  from Cons.prems(2,3) have o: "\<not> sublist think_open (p @ outer @ concat (map snd pairs))"
    and c: "\<not> sublist think_close (p @ outer @ concat (map snd pairs))"
    by (simp_all add: outer_text_def contains_sublist pair)
  from Cons.prems(1) have i: "\<not> sublist think_close inner"
    and r: "list_all (\<lambda>pair. \<not> contains think_close (fst pair)) pairs"
    by (simp_all add: pair contains_sublist)
  have m: "marked p (pair # pairs)
             = p @ think_open @ inner @ think_close @ outer @ concat (map think_block pairs)"
    by (simp add: marked_def think_block_def pair)
  have t: "outer_text (p @ outer) pairs = outer_text p (pair # pairs)"
    by (simp add: outer_text_def pair)
  have "strip_loop th (marked p (pair # pairs))
          = strip_loop (th @ str_strip inner @ ''\<newline>\<newline>'') (marked (p @ outer) pairs)"
    unfolding m
    using strip_loop_step[OF sublist_append_left[OF o] sublist_append_left[OF c] i,
        of th "outer @ concat (map think_block pairs)"]
    by (simp add: marked_def)
  also have "\<dots> = Some ((th @ str_strip inner @ ''\<newline>\<newline>'') @ inner_thoughts pairs,
                       outer_text (p @ outer) pairs)"
  proof (rule Cons.IH[OF r])
    from Cons.prems(2) show "\<not> contains think_open (outer_text (p @ outer) pairs)"
      unfolding t .
    from Cons.prems(3) show "\<not> contains think_close (outer_text (p @ outer) pairs)"
      unfolding t .
  qed
  finally show ?case
    by (simp add: t inner_thoughts_def pair)
qed

lemma sublist_str_strip: "sublist (str_strip t) t"
proof -
  have "suffix (dropWhile is_space t) t" by (rule suffix_dropWhile)
  moreover have "prefix (rev (dropWhile is_space (rev (dropWhile is_space t))))
      (dropWhile is_space t)"
    using suffix_dropWhile[of is_space "rev (dropWhile is_space t)"]
    by (simp add: suffix_to_prefix)
  ultimately show ?thesis
    unfolding str_strip_def
    by (meson prefix_imp_sublist suffix_imp_sublist sublist_order.order_trans)
qed

lemma contains_str_strip: "\<not> contains m t \<Longrightarrow> \<not> contains m (str_strip t)"
  unfolding contains_sublist
  using sublist_str_strip[of t] sublist_order.order_trans by blast

text \<open>
  C8 (on balanced input the cleaned text holds no marker and the thoughts are the inner
  contents of the pairs), refuted. The loop pairs the first start marker with the first
  end marker: of nested pairs it removes the text from the outer start to the inner end
  and leaves the outer end marker; and the two parts left around a removed span can join
  into a marker.
\<close>

theorem nested_markers_survive:
  "balanced ''<think>a<think>b</think>c</think>''
   \<and> strip_thinking_tokens ''<think>a<think>b</think>c</think>''
       = Some (''a<think>b'', ''c</think>'')
   \<and> contains think_close ''c</think>''
   \<and> balanced ''<thi<think>x</think>nk> done''
   \<and> strip_thinking_tokens ''<thi<think>x</think>nk> done'' = Some (''x'', ''<think> done'')
   \<and> contains think_open ''<think> done''"
  by code_simp

text \<open>
  C8, amended. For a text made of marker pairs that follow one another, where no inner
  content holds an end marker and the text outside the pairs, joined, holds neither
  marker: the loop ends, the cleaned text is the outer text, trimmed, with no marker in
  it, and the thoughts are the inner contents in order, each trimmed and followed by a
  blank line, trimmed as a whole.
\<close>

theorem strip_thinking_tokens_pairs:
  "list_all (\<lambda>pair. \<not> contains think_close (fst pair)) pairs \<longrightarrow>
   \<not> contains think_open (outer_text p0 pairs) \<longrightarrow>
   \<not> contains think_close (outer_text p0 pairs) \<longrightarrow>
     strip_thinking_tokens (marked p0 pairs)
       = Some (str_strip (inner_thoughts pairs), str_strip (outer_text p0 pairs))
     \<and> \<not> contains think_open (str_strip (outer_text p0 pairs))
     \<and> \<not> contains think_close (str_strip (outer_text p0 pairs))"
proof (intro impI conjI)
  assume a: "list_all (\<lambda>pair. \<not> contains think_close (fst pair)) pairs"
    and o: "\<not> contains think_open (outer_text p0 pairs)"
    and c: "\<not> contains think_close (outer_text p0 pairs)"
  from strip_loop_marked[OF a o c, of "[]"]
  show "strip_thinking_tokens (marked p0 pairs)
       = Some (str_strip (inner_thoughts pairs), str_strip (outer_text p0 pairs))"
    by (simp add: strip_thinking_tokens_def)
  from o show "\<not> contains think_open (str_strip (outer_text p0 pairs))"
    by (rule contains_str_strip)
  from c show "\<not> contains think_close (str_strip (outer_text p0 pairs))"
    by (rule contains_str_strip)
qed

theorem strip_thinking_tokens_pairs_witness:
  "list_all (\<lambda>pair. \<not> contains think_close (fst pair))
     [(''  plan A '', '' mid ''), (''plan B'', '' end '')]
   \<and> \<not> contains think_open (outer_text ''Hi '' [(''  plan A '', '' mid ''), (''plan B'', '' end '')])
   \<and> \<not> contains think_close (outer_text ''Hi '' [(''  plan A '', '' mid ''), (''plan B'', '' end '')])
   \<and> marked ''Hi '' [(''  plan A '', '' mid ''), (''plan B'', '' end '')]
       = ''Hi <think>  plan A </think> mid <think>plan B</think> end ''
   \<and> balanced ''Hi <think>  plan A </think> mid <think>plan B</think> end ''
   \<and> strip_thinking_tokens ''Hi <think>  plan A </think> mid <think>plan B</think> end ''
       = Some (''plan A\<newline>\<newline>plan B'', ''Hi  mid  end'')"
proof -
  have a: "list_all (\<lambda>pair. \<not> contains think_close (fst pair))
     [(''  plan A '', '' mid ''), (''plan B'', '' end '')]"
    by code_simp
  have o: "\<not> contains think_open
      (outer_text ''Hi '' [(''  plan A '', '' mid ''), (''plan B'', '' end '')])"
    by code_simp
  have c: "\<not> contains think_close
      (outer_text ''Hi '' [(''  plan A '', '' mid ''), (''plan B'', '' end '')])"
    by code_simp
  have m: "marked ''Hi '' [(''  plan A '', '' mid ''), (''plan B'', '' end '')]
       = ''Hi <think>  plan A </think> mid <think>plan B</think> end ''"
    by code_simp
  have b: "balanced ''Hi <think>  plan A </think> mid <think>plan B</think> end ''"
    by code_simp
  have i: "str_strip (inner_thoughts [(''  plan A '', '' mid ''), (''plan B'', '' end '')])
       = ''plan A\<newline>\<newline>plan B''"
    by code_simp
  have t: "str_strip (outer_text ''Hi '' [(''  plan A '', '' mid ''), (''plan B'', '' end '')])
       = ''Hi  mid  end''"
    by code_simp
  from strip_thinking_tokens_pairs[rule_format, OF a o c, THEN conjunct1]
  have "strip_thinking_tokens ''Hi <think>  plan A </think> mid <think>plan B</think> end ''
       = Some (''plan A\<newline>\<newline>plan B'', ''Hi  mid  end'')"
    by (simp only: m i t)
  with a o c m b show ?thesis by blast
qed

end
